theory Spec2Isabelle
  imports Main "HOL-Library.Word" "HOL-Library.Sublist"
begin

unbundle bit_operations_syntax

section \<open>Python strings and the library functions the script calls\<close>

text \<open>
  A Python \<open>str\<close> is a sequence of Unicode code points, so a string is a list of
  natural numbers; \<open>lit\<close> writes an ASCII literal. The script runs on a POSIX system:
  \<open>os.path\<close> is \<open>posixpath\<close> and the separator is \<open>/\<close> (code point 47).
\<close>

type_synonym pystr = "nat list"

definition lit :: "string \<Rightarrow> pystr" where
  "lit s = map of_char s"

text \<open>
  \<open>s.replace(old, new)\<close>: the occurrences of \<open>old\<close> are found from left to right, each
  search starting behind the previous occurrence, and every one is replaced. With an empty
  \<open>old\<close> CPython puts \<open>new\<close> in front of every character and at the end.
\<close>

fun replace_scan :: "'a list \<Rightarrow> 'a list \<Rightarrow> 'a list \<Rightarrow> 'a list" where
  "replace_scan old new [] = []"
| "replace_scan old new (c # cs) =
     (if prefix old (c # cs) then new @ replace_scan old new (drop (length old - 1) cs)
      else c # replace_scan old new cs)"

definition str_replace :: "'a list \<Rightarrow> 'a list \<Rightarrow> 'a list \<Rightarrow> 'a list" where
  "str_replace s old new =
     (if old = [] then new @ concat (map (\<lambda>c. c # new) s) else replace_scan old new s)"

text \<open>
  \<open>re.sub(pattern, repl, string)\<close> for a pattern that is one literal character and a
  replacement without backslash escapes: every such character is replaced.
\<close>

definition re_sub_char :: "nat \<Rightarrow> pystr \<Rightarrow> pystr \<Rightarrow> pystr" where
  "re_sub_char c repl s = concat (map (\<lambda>x. if x = c then repl else [x]) s)"

text \<open>\<open>posixpath.join(a, b)\<close>, \<open>posixpath.split(p)\<close> and \<open>posixpath.basename(p)\<close>.\<close>

definition sep :: nat where
  "sep = 47"

definition path_join :: "pystr \<Rightarrow> pystr \<Rightarrow> pystr" where
  "path_join a b =
     (if prefix [sep] b then b
      else if a = [] \<or> suffix [sep] a then a @ b
      else a @ [sep] @ b)"

definition basename :: "pystr \<Rightarrow> pystr" where
  "basename p = rev (takeWhile (\<lambda>c. c \<noteq> sep) (rev p))"

definition path_split :: "pystr \<Rightarrow> pystr \<times> pystr" where
  "path_split p =
     (let tail = basename p;
          head = take (length p - length tail) p
      in (if head \<noteq> [] \<and> head \<noteq> replicate (length head) sep
          then rev (dropWhile (\<lambda>c. c = sep) (rev head)) else head, tail))"

text \<open>
  \<open>fnmatch\<close> on POSIX, for patterns built from literal characters, \<open>*\<close> (code point 42)
  and \<open>?\<close> (63). Bracket expressions are not modelled; no pattern of the script has one.
\<close>

fun fnmatch :: "pystr \<Rightarrow> pystr \<Rightarrow> bool" where
  "fnmatch [] [] = True"
| "fnmatch (c # cs) [] = False"
| "fnmatch [] (p # ps) = (p = 42 \<and> fnmatch [] ps)"
| "fnmatch (c # cs) (p # ps) =
     (if p = 42 then fnmatch (c # cs) ps \<or> fnmatch cs (p # ps)
      else (p = 63 \<or> p = c) \<and> fnmatch cs ps)"

definition ishidden :: "pystr \<Rightarrow> bool" where
  "ishidden p = prefix [46] p"

text \<open>
  \<open>glob.glob(pathname)\<close> for a pathname whose last component has a wildcard and whose
  directory part has none and names the directory with the listing \<open>names\<close>
  (\<open>os.listdir\<close>, in its order): the entries that match the last component, without the
  names that start with a dot unless the pattern does, each joined to the directory part.
\<close>

definition glob :: "pystr list \<Rightarrow> pystr \<Rightarrow> pystr list" where
  "glob names pathname =
     (case path_split pathname of (dirname, pattern) \<Rightarrow>
        map (path_join dirname)
          (filter (\<lambda>x. (ishidden pattern \<or> \<not> ishidden x) \<and> fnmatch x pattern) names))"

text \<open>
  A suffix that \<open>glob\<close> reads literally: no wildcard character (\<open>*\<close>, \<open>?\<close>, \<open>[\<close>) and no
  separator. \<open>has_magic\<close> is \<open>glob.has_magic\<close>: the string has a wildcard character. In a
  directory path with one, \<open>glob\<close> reads the path as a pattern for directories, and what
  it finds depends on the directories beside the one listed; the definition above does
  not cover that, and the statements below about what \<open>glob\<close> returns are for a
  directory path without wildcard characters. \<open>glob_dirname\<close> is the directory part
  \<open>glob\<close> splits off a pattern joined to \<open>directory\<close>; for a directory path without a
  trailing separator it is the path itself.
\<close>

definition plain :: "pystr \<Rightarrow> bool" where
  "plain s = list_all (\<lambda>c. c \<noteq> 42 \<and> c \<noteq> 63 \<and> c \<noteq> 91 \<and> c \<noteq> sep) s"

definition has_magic :: "pystr \<Rightarrow> bool" where
  "has_magic s = list_ex (\<lambda>c. c = 42 \<or> c = 63 \<or> c = 91) s"

definition glob_dirname :: "pystr \<Rightarrow> pystr" where
  "glob_dirname directory = fst (path_split (path_join directory [42]))"

section \<open>get_single_file_with_suffix\<close>

text \<open>
  The \<open>suffix\<close> argument is dynamically typed: a \<open>str\<close>, a \<open>list\<close> (its elements
  given by what \<open>'*{}'.format\<close> renders them as), or anything else (given by its
  rendering). The two exceptions carry the arguments their messages are formatted from:
  \<open>"Should have no more than one '{}' file in {}"\<close> and
  \<open>"No file found with suffix '{}' in {}"\<close>.
\<close>

datatype suffix_arg = SuffixStr pystr | SuffixList "pystr list" | SuffixOther pystr

datatype error =
    TooManyFiles suffix_arg pystr
  | NoFileFound suffix_arg pystr
  | IndexError
  | KeyError pystr
  | UnicodeEncodeError
  | FileNotFoundError
  | IsADirectoryError
  | NotADirectoryError
  | DirectoryNotEmpty

definition candidate_files :: "pystr list \<Rightarrow> pystr \<Rightarrow> suffix_arg \<Rightarrow> pystr list" where
  "candidate_files names directory suffix' =
     (case suffix' of
        SuffixList suffixes' \<Rightarrow>
          concat (map (\<lambda>s. glob names (path_join directory (42 # s))) suffixes')
      | SuffixStr s \<Rightarrow> glob names (path_join directory (42 # s))
      | SuffixOther _ \<Rightarrow> [])"

definition get_single_file_with_suffix ::
    "pystr list \<Rightarrow> pystr \<Rightarrow> suffix_arg \<Rightarrow> error + pystr" where
  "get_single_file_with_suffix names directory suffix' =
     (let candidates = candidate_files names directory suffix'
      in if length candidates > 1 then Inl (TooManyFiles suffix' directory)
         else if length candidates = 0 then Inl (NoFileFound suffix' directory)
         else Inr (hd candidates))"

text \<open>The suffixes an argument stands for: a string for itself, any other type for none.\<close>

definition suffix_list :: "suffix_arg \<Rightarrow> pystr list" where
  "suffix_list a = (case a of SuffixStr s \<Rightarrow> [s] | SuffixList l \<Rightarrow> l | SuffixOther _ \<Rightarrow> [])"

section \<open>MD5 and UTF-8\<close>

text \<open>
  \<open>hashlib.md5(data).hexdigest()\<close>, after RFC 1321: the message is padded to a multiple
  of 64 bytes, every block of sixteen little-endian 32-bit words goes through 64 steps,
  and the four state words are written out little-endian, two lower-case hexadecimal
  digits a byte.
\<close>

type_synonym byte = "8 word"
type_synonym u32 = "32 word"
type_synonym md5_state = "u32 \<times> u32 \<times> u32 \<times> u32"

definition md5_K :: "u32 list" where
  "md5_K = [
    0xd76aa478, 0xe8c7b756, 0x242070db, 0xc1bdceee, 0xf57c0faf, 0x4787c62a, 0xa8304613, 0xfd469501,
    0x698098d8, 0x8b44f7af, 0xffff5bb1, 0x895cd7be, 0x6b901122, 0xfd987193, 0xa679438e, 0x49b40821,
    0xf61e2562, 0xc040b340, 0x265e5a51, 0xe9b6c7aa, 0xd62f105d, 0x02441453, 0xd8a1e681, 0xe7d3fbc8,
    0x21e1cde6, 0xc33707d6, 0xf4d50d87, 0x455a14ed, 0xa9e3e905, 0xfcefa3f8, 0x676f02d9, 0x8d2a4c8a,
    0xfffa3942, 0x8771f681, 0x6d9d6122, 0xfde5380c, 0xa4beea44, 0x4bdecfa9, 0xf6bb4b60, 0xbebfbc70,
    0x289b7ec6, 0xeaa127fa, 0xd4ef3085, 0x04881d05, 0xd9d4d039, 0xe6db99e5, 0x1fa27cf8, 0xc4ac5665,
    0xf4292244, 0x432aff97, 0xab9423a7, 0xfc93a039, 0x655b59c3, 0x8f0ccc92, 0xffeff47d, 0x85845dd1,
    0x6fa87e4f, 0xfe2ce6e0, 0xa3014314, 0x4e0811a1, 0xf7537e82, 0xbd3af235, 0x2ad7d2bb, 0xeb86d391]"

definition md5_s :: "nat list" where
  "md5_s = [7, 12, 17, 22, 7, 12, 17, 22, 7, 12, 17, 22, 7, 12, 17, 22,
            5, 9, 14, 20, 5, 9, 14, 20, 5, 9, 14, 20, 5, 9, 14, 20,
            4, 11, 16, 23, 4, 11, 16, 23, 4, 11, 16, 23, 4, 11, 16, 23,
            6, 10, 15, 21, 6, 10, 15, 21, 6, 10, 15, 21, 6, 10, 15, 21]"

definition le32 :: "byte list \<Rightarrow> u32" where
  "le32 bs = foldr (\<lambda>b w. push_bit 8 w OR ucast b) bs 0"

definition le_bytes :: "nat \<Rightarrow> nat \<Rightarrow> byte list" where
  "le_bytes n v = map (\<lambda>i. word_of_nat (v div 2 ^ (8 * i))) [0..<n]"

fun chunks :: "nat \<Rightarrow> 'a list \<Rightarrow> 'a list list" where
  "chunks n [] = []"
| "chunks n (x # xs) = take (Suc (n - 1)) (x # xs) # chunks n (drop (n - 1) xs)"

definition md5_pad :: "byte list \<Rightarrow> byte list" where
  "md5_pad m = m @ [0x80] @ replicate ((119 - length m mod 64) mod 64) 0
                 @ le_bytes 8 (8 * length m mod 2 ^ 64)"

definition rotl32 :: "nat \<Rightarrow> u32 \<Rightarrow> u32" where
  "rotl32 n w = push_bit n w OR drop_bit (32 - n) w"

definition md5_step :: "u32 list \<Rightarrow> md5_state \<Rightarrow> nat \<Rightarrow> md5_state" where
  "md5_step M st i = (case st of (A, B, C, D) \<Rightarrow>
     let (F, g) =
       (if i < 16 then ((B AND C) OR (NOT B AND D), i)
        else if i < 32 then ((D AND B) OR (NOT D AND C), (5 * i + 1) mod 16)
        else if i < 48 then (B XOR C XOR D, (3 * i + 5) mod 16)
        else (C XOR (B OR NOT D), (7 * i) mod 16));
       F' = F + A + md5_K ! i + M ! g
     in (D, B + rotl32 (md5_s ! i) F', B, C))"

definition md5_block :: "md5_state \<Rightarrow> byte list \<Rightarrow> md5_state" where
  "md5_block st blk = (case st of (a0, b0, c0, d0) \<Rightarrow>
     case foldl (md5_step (map le32 (chunks 4 blk))) st [0..<64] of
       (A, B, C, D) \<Rightarrow> (a0 + A, b0 + B, c0 + C, d0 + D))"

definition md5 :: "byte list \<Rightarrow> byte list" where
  "md5 m = (case foldl md5_block (0x67452301, 0xefcdab89, 0x98badcfe, 0x10325476)
                   (chunks 64 (md5_pad m)) of
     (a, b, c, d) \<Rightarrow> concat (map (\<lambda>w. le_bytes 4 (unat w)) [a, b, c, d]))"

definition hex_digit :: "nat \<Rightarrow> nat" where
  "hex_digit n = (if n < 10 then 48 + n else 87 + n)"

definition hexdigest :: "byte list \<Rightarrow> pystr" where
  "hexdigest bs = concat (map (\<lambda>b. [hex_digit (unat b div 16), hex_digit (unat b mod 16)]) bs)"

text \<open>
  \<open>s.encode('utf-8')\<close>: one to four bytes a code point; a surrogate (and a number that is
  no code point) has no encoding and raises \<open>UnicodeEncodeError\<close>.
\<close>

definition encodable :: "nat \<Rightarrow> bool" where
  "encodable c = (c < 0xD800 \<or> (0xE000 \<le> c \<and> c < 0x110000))"

definition utf8_char :: "nat \<Rightarrow> byte list" where
  "utf8_char c =
     (if c < 0x80 then [word_of_nat c]
      else if c < 0x800 then [word_of_nat (0xC0 + c div 64), word_of_nat (0x80 + c mod 64)]
      else if c < 0x10000 then
        [word_of_nat (0xE0 + c div 4096), word_of_nat (0x80 + c div 64 mod 64),
         word_of_nat (0x80 + c mod 64)]
      else [word_of_nat (0xF0 + c div 262144), word_of_nat (0x80 + c div 4096 mod 64),
            word_of_nat (0x80 + c div 64 mod 64), word_of_nat (0x80 + c mod 64)])"

definition utf8_bytes :: "pystr \<Rightarrow> byte list" where
  "utf8_bytes s = concat (map utf8_char s)"

definition encode_utf8 :: "pystr \<Rightarrow> error + byte list" where
  "encode_utf8 s = (if list_all encodable s then Inr (utf8_bytes s) else Inl UnicodeEncodeError)"

section \<open>map_old_vott_path_and_id_to_new\<close>

text \<open>
  An asset record of the manifest with the three fields the script reads, and the manifest
  with its \<open>assets\<close> dictionary in the order of the file (a dictionary keeps insertion
  order). A dictionary is an association list with distinct keys: storing under a key that
  is present overwrites the value in place, a new key goes to the end.
\<close>

record asset =
  asset_name :: pystr
  asset_id :: pystr
  asset_path :: pystr

record vott_dict =
  assets :: "(pystr \<times> asset) list"

type_synonym id_dict = "(pystr \<times> pystr) list"

fun dict_set :: "'k \<Rightarrow> 'v \<Rightarrow> ('k \<times> 'v) list \<Rightarrow> ('k \<times> 'v) list" where
  "dict_set k v [] = [(k, v)]"
| "dict_set k v (kv # d) = (if fst kv = k then (k, v) # d else kv # dict_set k v d)"

definition source_asset_path :: "pystr \<Rightarrow> asset \<Rightarrow> pystr" where
  "source_asset_path directory_name a = lit ''file:'' @ path_join directory_name (asset_name a)"

fun map_assets :: "pystr \<Rightarrow> asset list \<Rightarrow> id_dict \<Rightarrow> error + id_dict" where
  "map_assets directory_name [] old_to_new_ids = Inr old_to_new_ids"
| "map_assets directory_name (a # rest) old_to_new_ids =
     (case encode_utf8 (source_asset_path directory_name a) of
        Inl e \<Rightarrow> Inl e
      | Inr data \<Rightarrow>
          map_assets directory_name rest
            (dict_set (asset_id a) (hexdigest (md5 data)) old_to_new_ids))"

definition map_old_vott_path_and_id_to_new :: "vott_dict \<Rightarrow> pystr \<Rightarrow> error + id_dict" where
  "map_old_vott_path_and_id_to_new vd directory_name =
     map_assets directory_name (map snd (assets vd)) []"

section \<open>main\<close>

text \<open>
  The metadata directory is its listing: the entries in \<open>os.listdir\<close> order, each a
  regular file with its text or a directory (with whether it has entries). All paths the
  script builds lie in this directory, so an entry is found by the last component of a
  path. Permissions, links and undecodable files are outside the model.
\<close>

datatype node = RegularFile pystr | Directory bool

type_synonym directory = "(pystr \<times> node) list"

definition npm_ready :: "pystr \<Rightarrow> pystr" where
  "npm_ready new_source_directory = re_sub_char 32 (lit ''%20'') new_source_directory"

definition old_source_directory :: "pystr \<Rightarrow> pystr" where
  "old_source_directory path_value = fst (path_split (drop (length (lit ''file:'')) path_value))"

text \<open>
  \<open>os.rename(src, dst)\<close> inside the directory: a regular file replaces a regular file, a
  directory replaces an empty directory, and renaming an entry to itself does nothing.
\<close>

definition os_rename :: "directory \<Rightarrow> pystr \<Rightarrow> pystr \<Rightarrow> error + directory" where
  "os_rename fs src dst =
     (let s = basename src; d = basename dst;
          moved = map (\<lambda>(n, x). if n = s then (d, x) else (n, x)) (filter (\<lambda>(n, x). n \<noteq> d) fs)
      in case map_of fs s of
           None \<Rightarrow> Inl FileNotFoundError
         | Some sn \<Rightarrow>
             if s = d then Inr fs
             else (case (sn, map_of fs d) of
                     (_, None) \<Rightarrow> Inr moved
                   | (RegularFile _, Some (RegularFile _)) \<Rightarrow> Inr moved
                   | (RegularFile _, Some (Directory _)) \<Rightarrow> Inl IsADirectoryError
                   | (Directory _, Some (RegularFile _)) \<Rightarrow> Inl NotADirectoryError
                   | (Directory _, Some (Directory nonempty)) \<Rightarrow>
                       if nonempty then Inl DirectoryNotEmpty else Inr moved))"

text \<open>
  Pass 1, the loop over \<open>glob.glob(os.path.join(target_directory, '*-asset.json'))\<close>. An
  exception leaves the directory as the renames before it made it.
\<close>

fun rename_assets ::
    "id_dict \<Rightarrow> pystr \<Rightarrow> pystr list \<Rightarrow> directory \<Rightarrow> directory \<times> error option" where
  "rename_assets old_to_new_ids target_directory [] fs = (fs, None)"
| "rename_assets old_to_new_ids target_directory (old_asset_path # rest) fs =
     (let old_asset_file = basename old_asset_path;
          old_asset_id = takeWhile (\<lambda>c. c \<noteq> 45) old_asset_file
      in case map_of old_to_new_ids old_asset_id of
           None \<Rightarrow> (fs, Some (KeyError old_asset_id))
         | Some new_id \<Rightarrow>
             (case os_rename fs old_asset_path
                     (path_join target_directory (new_id @ lit ''-asset.json'')) of
                Inl e \<Rightarrow> (fs, Some e)
              | Inr fs' \<Rightarrow> rename_assets old_to_new_ids target_directory rest fs'))"

definition rename_pass :: "id_dict \<Rightarrow> pystr \<Rightarrow> directory \<Rightarrow> directory \<times> error option" where
  "rename_pass old_to_new_ids target_directory fs =
     rename_assets old_to_new_ids target_directory
       (glob (map fst fs) (path_join target_directory (lit ''*-asset.json''))) fs"

text \<open>
  Pass 2. \<open>fileinput\<close> reads a file in text mode (a \<open>\r\n\<close> or \<open>\r\<close> arrives as
  \<open>\n\<close>) and yields its lines, each with its line end; what the loop writes becomes the
  file. Its reading of standard input when the list of files is empty is not modelled
  (in \<open>main\<close> the manifest file is always in the list).
\<close>

fun universal_newlines :: "pystr \<Rightarrow> pystr" where
  "universal_newlines [] = []"
| "universal_newlines [c] = [if c = 13 then 10 else c]"
| "universal_newlines (c # c' # cs) =
     (if c = 13 \<and> c' = 10 then 10 # universal_newlines cs
      else if c = 13 then 10 # universal_newlines (c' # cs)
      else c # universal_newlines (c' # cs))"

fun text_lines :: "pystr \<Rightarrow> pystr list" where
  "text_lines [] = []"
| "text_lines (c # cs) =
     (if c = 10 then [c] # text_lines cs
      else (case text_lines cs of [] \<Rightarrow> [[c]] | l # ls \<Rightarrow> (c # l) # ls))"

fun replace_ids :: "id_dict \<Rightarrow> pystr \<Rightarrow> pystr" where
  "replace_ids [] line = line"
| "replace_ids (id_pair # rest) line =
     replace_ids rest (str_replace line (fst id_pair) (snd id_pair))"

definition rewrite_line :: "id_dict \<Rightarrow> pystr \<Rightarrow> pystr \<Rightarrow> pystr \<Rightarrow> pystr" where
  "rewrite_line old_to_new_ids old_dir new_dir line =
     str_replace (replace_ids old_to_new_ids line) old_dir new_dir"

definition rewrite_text :: "id_dict \<Rightarrow> pystr \<Rightarrow> pystr \<Rightarrow> pystr \<Rightarrow> pystr" where
  "rewrite_text old_to_new_ids old_dir new_dir content =
     concat (map (rewrite_line old_to_new_ids old_dir new_dir)
               (text_lines (universal_newlines content)))"

definition isfile :: "directory \<Rightarrow> pystr \<Rightarrow> bool" where
  "isfile fs p = (case map_of fs (basename p) of Some (RegularFile _) \<Rightarrow> True | _ \<Rightarrow> False)"

definition rewrite_node :: "(pystr \<Rightarrow> pystr) \<Rightarrow> node \<Rightarrow> node" where
  "rewrite_node f x = (case x of RegularFile t \<Rightarrow> RegularFile (f t) | Directory b \<Rightarrow> Directory b)"

text \<open>
  \<open>fileinput.input(files, inplace=True)\<close>, file by file: the backup name is the file name
  with \<open>.bak\<close>; a file of that name is removed (\<open>os.unlink\<close>, an \<open>OSError\<close> ignored, so
  a directory of that name stays); the file is renamed to the backup name (which raises
  when the file is gone or the backup name is a directory); the backup is opened for
  reading and the file created anew for what the loop writes; when the lines are
  through, the backup is removed. The new file takes the entry's place in the listing.
\<close>

definition os_unlink_quiet :: "directory \<Rightarrow> pystr \<Rightarrow> directory" where
  "os_unlink_quiet fs p =
     (case map_of fs (basename p) of
        Some (RegularFile t) \<Rightarrow> filter (\<lambda>(n, x). n \<noteq> basename p) fs
      | _ \<Rightarrow> fs)"

fun rewrite_files ::
    "(pystr \<Rightarrow> pystr) \<Rightarrow> pystr list \<Rightarrow> directory \<Rightarrow> directory \<times> error option" where
  "rewrite_files f [] fs = (fs, None)"
| "rewrite_files f (filename # files) fs =
     (let backupfilename = filename @ lit ''.bak'';
          fs1 = os_unlink_quiet fs backupfilename
      in case os_rename fs1 filename backupfilename of
           Inl e \<Rightarrow> (fs1, Some e)
         | Inr fs2 \<Rightarrow>
             (case map_of fs2 (basename backupfilename) of
                Some (RegularFile t) \<Rightarrow>
                  rewrite_files f files
                    (map (\<lambda>(n, x). if n = basename backupfilename
                                    then (basename filename, RegularFile (f t)) else (n, x)) fs2)
              | _ \<Rightarrow> (fs2, Some IsADirectoryError)))"

definition rewrite_pass ::
    "id_dict \<Rightarrow> pystr \<Rightarrow> pystr \<Rightarrow> pystr \<Rightarrow> directory \<Rightarrow> directory \<times> error option" where
  "rewrite_pass old_to_new_ids old_dir new_dir target_directory fs =
     rewrite_files (rewrite_text old_to_new_ids old_dir new_dir)
       (filter (isfile fs) (glob (map fst fs) (path_join target_directory (lit ''*'')))) fs"

text \<open>
  \<open>main\<close>, with the dictionary \<open>json.load\<close> returns for the manifest as an argument. The
  result is the directory as the run leaves it and the exception that ended it, if any.
  The messages printed, and the reads of the connection names and of the security token
  for the closing message, are left out.
\<close>

definition main :: "pystr \<Rightarrow> pystr \<Rightarrow> directory \<Rightarrow> vott_dict \<Rightarrow> directory \<times> error option" where
  "main new_source_directory target_directory fs vd =
     (let npm_ready_new_source_directory = npm_ready new_source_directory
      in case get_single_file_with_suffix (map fst fs) target_directory (SuffixStr (lit ''.vott'')) of
           Inl e \<Rightarrow> (fs, Some e)
         | Inr vott_file \<Rightarrow>
             if \<not> isfile fs vott_file then (fs, Some IsADirectoryError)
             else (case map snd (assets vd) of
                [] \<Rightarrow> (fs, Some IndexError)
              | first # _ \<Rightarrow>
                  (case map_old_vott_path_and_id_to_new vd npm_ready_new_source_directory of
                     Inl e \<Rightarrow> (fs, Some e)
                   | Inr old_to_new_ids \<Rightarrow>
                       (case rename_pass old_to_new_ids target_directory fs of
                          (fs1, Some e) \<Rightarrow> (fs1, Some e)
                        | (fs1, None) \<Rightarrow>
                            rewrite_pass old_to_new_ids (old_source_directory (asset_path first))
                              npm_ready_new_source_directory target_directory fs1))))"

section \<open>Notions used in the statements\<close>



text \<open>
  The entries Pass 1 works on: the names that do not start with a dot and end with
  \<open>-asset.json\<close>, in listing order. The key Pass 1 cuts from such a name (the text in
  front of its first \<open>-\<close>, code point 45) and the name it renames the entry to. The
  entries Pass 1 renames are those in front of the first one whose key the mapping lacks;
  the loop stops at that one. The files Pass 2 rewrites: the regular files whose name does
  not start with a dot. Last, the name pattern the specification gives for the per-asset
  files: 32 hexadecimal digits and \<open>-asset.json\<close>.
\<close>

definition asset_files :: "directory \<Rightarrow> pystr list" where
  "asset_files fs = filter (\<lambda>n. \<not> ishidden n \<and> suffix (lit ''-asset.json'') n) (map fst fs)"

definition asset_key :: "pystr \<Rightarrow> pystr" where
  "asset_key n = takeWhile (\<lambda>c. c \<noteq> 45) n"

definition new_asset_name :: "id_dict \<Rightarrow> pystr \<Rightarrow> pystr" where
  "new_asset_name ids n =
     (case map_of ids (asset_key n) of Some new_id \<Rightarrow> new_id @ lit ''-asset.json'' | None \<Rightarrow> n)"

definition renamed :: "id_dict \<Rightarrow> directory \<Rightarrow> pystr list" where
  "renamed ids fs = takeWhile (\<lambda>n. map_of ids (asset_key n) \<noteq> None) (asset_files fs)"

definition unmapped :: "id_dict \<Rightarrow> directory \<Rightarrow> pystr list" where
  "unmapped ids fs = dropWhile (\<lambda>n. map_of ids (asset_key n) \<noteq> None) (asset_files fs)"

definition rewritten :: "directory \<Rightarrow> pystr list" where
  "rewritten fs =
     filter (\<lambda>n. \<not> ishidden n \<and> (case map_of fs n of Some (RegularFile t) \<Rightarrow> True | _ \<Rightarrow> False))
       (map fst fs)"

definition hex32_asset_name :: "pystr \<Rightarrow> bool" where
  "hex32_asset_name n =
     (length n = 43 \<and> list_all (\<lambda>c. c \<in> set (lit ''0123456789abcdef'')) (take 32 n) \<and>
      drop 32 n = lit ''-asset.json'')"

section \<open>Strings: replacement and canonical form\<close>

lemma re_sub_char_append:
  "re_sub_char c r (xs @ ys) = re_sub_char c r xs @ re_sub_char c r ys"
  by (simp add: re_sub_char_def)

lemma re_sub_char_fixed:
  "c \<notin> set s \<Longrightarrow> re_sub_char c r s = s"
  by (induction s) (auto simp: re_sub_char_def)

text \<open>
  C7. Canonicalising the new source directory (every space becomes \<open>%20\<close>) is
  idempotent: doing it twice gives what doing it once gives, for every string.
\<close>

theorem npm_ready_idempotent:
  "npm_ready (npm_ready s) = npm_ready s"
proof (induction s)
  case Nil
  show ?case by (simp add: npm_ready_def re_sub_char_def)
next
  case (Cons c s)
  have step: "npm_ready (c # s) = (if c = 32 then lit ''%20'' else [c]) @ npm_ready s"
    by (simp add: npm_ready_def re_sub_char_def)
  have fixed: "npm_ready (if c = 32 then lit ''%20'' else [c]) = (if c = 32 then lit ''%20'' else [c])"
    by (simp add: npm_ready_def re_sub_char_def lit_def)
  have "npm_ready (npm_ready (c # s)) =
        npm_ready (if c = 32 then lit ''%20'' else [c]) @ npm_ready (npm_ready s)"
    unfolding step by (simp only: npm_ready_def re_sub_char_append)
  then show ?case
    using Cons.IH fixed step by simp
qed

section \<open>Pass 2: the identifier loop\<close>

text \<open>
  One replacement: a string without an occurrence of \<open>old\<close> stays as it is, and the first
  occurrence of \<open>old\<close> is replaced by \<open>new\<close>, the text in front of it kept and the text
  behind it searched on. A pair whose old identifier does not occur changes nothing, so
  a line with occurrences of one old identifier only is rewritten by that pair alone.
\<close>

lemma replace_scan_no_occurrence:
  "\<not> sublist old s \<Longrightarrow> replace_scan old new s = s"
  by (induction s) (auto simp: sublist_Cons_right)

lemma str_replace_no_occurrence:
  "\<not> sublist old s \<Longrightarrow> str_replace s old new = s"
  by (cases "old = []") (auto simp: str_replace_def replace_scan_no_occurrence)

lemma replace_ids_append:
  "replace_ids (xs @ ys) line = replace_ids ys (replace_ids xs line)"
  by (induction xs arbitrary: line) auto

lemma replace_ids_no_occurrence:
  "\<forall>(old, new) \<in> set ids. \<not> sublist old line \<Longrightarrow> replace_ids ids line = line"
  by (induction ids) (auto simp: str_replace_no_occurrence)

lemma prefix_in_front:
  assumes "prefix old (pre @ old @ post)" and "pre \<noteq> []"
  shows "sublist old (pre @ butlast old)"
proof (cases "old = []")
  case True
  then show ?thesis by simp
next
  case False
  have len: "length old \<le> length (pre @ butlast old)"
    using assms(2) by (cases pre) auto
  have "old = take (length old) (pre @ old @ post)"
    using assms(1) by (metis append_eq_conv_conj prefix_def)
  also have "pre @ old @ post = (pre @ butlast old) @ ([last old] @ post)"
    using False by (metis append_assoc append_butlast_last_id)
  also have "take (length old) \<dots> = take (length old) (pre @ butlast old)"
    using len by (simp del: append_assoc)
  finally have "prefix old (pre @ butlast old)"
    by (metis take_is_prefix)
  then show ?thesis by (rule prefix_imp_sublist)
qed

lemma replace_scan_first_occurrence:
  assumes "old \<noteq> []" and "\<not> sublist old (pre @ butlast old)"
  shows "replace_scan old new (pre @ old @ post) = pre @ new @ replace_scan old new post"
  using assms(2)
proof (induction pre)
  case Nil
  obtain c cs where old: "old = c # cs" using assms(1) by (cases old) auto
  show ?case by (simp add: old)
next
  case (Cons p pre)
  have no: "\<not> prefix old ((p # pre) @ old @ post)"
    using prefix_in_front [of old "p # pre" post] Cons.prems by blast
  have "\<not> sublist old (pre @ butlast old)"
    using Cons.prems by (simp add: sublist_Cons_right)
  then show ?case using Cons.IH no by simp
qed

lemma replace_ids_one_pair:
  assumes "distinct (map fst ids)" and "(old_id, new_id) \<in> set ids"
    and "\<forall>(old, new) \<in> set ids. old \<noteq> old_id \<longrightarrow>
           \<not> sublist old line \<and> \<not> sublist old (str_replace line old_id new_id)"
  shows "replace_ids ids line = str_replace line old_id new_id"
proof -
  obtain xs ys where split: "ids = xs @ (old_id, new_id) # ys"
    using assms(2) by (meson split_list)
  have "\<forall>(old, new) \<in> set xs. old \<noteq> old_id" "\<forall>(old, new) \<in> set ys. old \<noteq> old_id"
    using assms(1) unfolding split by (auto simp: rev_image_eqI)
  then have xs: "\<forall>(old, new) \<in> set xs. \<not> sublist old line"
    and ys: "\<forall>(old, new) \<in> set ys. \<not> sublist old (str_replace line old_id new_id)"
    using assms(3) unfolding split by fastforce+
  show ?thesis
    unfolding split
    by (simp add: replace_ids_append replace_ids_no_occurrence [OF xs]
        replace_ids_no_occurrence [OF ys])
qed










section \<open>The file matcher\<close>

lemma basename_append:
  assumes "sep \<notin> set b" and "x = [] \<or> suffix [sep] x"
  shows "basename (x @ b) = b"
proof -
  have "takeWhile (\<lambda>c. c \<noteq> sep) (rev x) = []"
    using assms(2) by (auto simp: suffix_def)
  moreover have "takeWhile (\<lambda>c. c \<noteq> sep) (rev b @ rev x) =
      rev b @ takeWhile (\<lambda>c. c \<noteq> sep) (rev x)"
    by (rule takeWhile_append2) (use assms(1) in auto)
  ultimately show ?thesis
    by (simp add: basename_def)
qed

lemma path_join_plain:
  assumes "sep \<notin> set b"
  shows "path_join d b = (if d = [] \<or> suffix [sep] d then d else d @ [sep]) @ b"
proof -
  have "\<not> prefix [sep] b" using assms by (auto simp: prefix_def)
  then show ?thesis by (simp add: path_join_def)
qed

lemma path_split_join:
  assumes "sep \<notin> set b"
  shows "path_split (path_join d b) = (glob_dirname d, b)"
proof -
  define x where "x = (if d = [] \<or> suffix [sep] d then d else d @ [sep])"
  have x: "x = [] \<or> suffix [sep] x" by (auto simp: x_def suffix_def)
  have star: "sep \<notin> set [42::nat]" by (simp add: sep_def)
  have split: "path_split (x @ c) =
      (if x \<noteq> [] \<and> x \<noteq> replicate (length x) sep
       then rev (dropWhile (\<lambda>c. c = sep) (rev x)) else x, c)" if "sep \<notin> set c" for c
    using basename_append [OF that x] by (simp add: path_split_def Let_def)
  show ?thesis
    unfolding glob_dirname_def path_join_plain [OF assms] path_join_plain [OF star]
    using split [OF assms] split [OF star] by (simp add: x_def)
qed

lemma glob_dirname_plain:
  assumes "directory \<noteq> []" and "\<not> suffix [sep] directory"
  shows "glob_dirname directory = directory"
proof -
  have star: "sep \<notin> set [42::nat]" by (simp add: sep_def)
  have last: "last directory \<noteq> sep"
    using assms by (metis append_butlast_last_id suffix_def)
  have "basename ((directory @ [sep]) @ [42]) = [42]"
    by (rule basename_append [OF star]) (simp add: suffix_def)
  moreover have "directory @ [sep] \<noteq> replicate (Suc (length directory)) sep"
  proof
    assume "directory @ [sep] = replicate (Suc (length directory)) sep"
    then have "set (directory @ [sep]) \<subseteq> {sep}" by (metis set_replicate_conv_if empty_subsetI subset_refl)
    then show False using last assms(1) last_in_set by fastforce
  qed
  moreover have "dropWhile (\<lambda>c. c = sep) (rev directory) = rev directory"
    using last assms(1) by (cases directory rule: rev_cases) auto
  ultimately show ?thesis
    using assms by (simp add: glob_dirname_def path_join_plain [OF star] path_split_def Let_def)
qed

lemma fnmatch_literal:
  "list_all (\<lambda>c. c \<noteq> 42 \<and> c \<noteq> 63) p \<Longrightarrow> fnmatch n p = (n = p)"
  by (induction n p rule: fnmatch.induct) auto

lemma fnmatch_star_literal:
  "list_all (\<lambda>c. c \<noteq> 42 \<and> c \<noteq> 63) p \<Longrightarrow> fnmatch n (42 # p) = suffix p n"
proof (induction n)
  case Nil
  then show ?case by (auto simp: fnmatch_literal)
next
  case (Cons c cs)
  then show ?case by (auto simp: fnmatch_literal suffix_Cons)
qed

lemma plain_literal:
  "plain s \<Longrightarrow> list_all (\<lambda>c. c \<noteq> 42 \<and> c \<noteq> 63) s \<and> sep \<notin> set (42 # s)"
  by (auto simp: plain_def list_all_iff sep_def)

lemma glob_star_suffix:
  assumes "plain s"
  shows "glob names (path_join directory (42 # s)) =
         map (path_join (glob_dirname directory)) (filter (\<lambda>n. \<not> ishidden n \<and> suffix s n) names)"
proof -
  have nosep: "sep \<notin> set (42 # s)" and lit: "list_all (\<lambda>c. c \<noteq> 42 \<and> c \<noteq> 63) s"
    using plain_literal [OF assms] by auto
  have "path_split (path_join directory (42 # s)) = (glob_dirname directory, 42 # s)"
    using nosep by (rule path_split_join)
  moreover have "\<not> ishidden (42 # s)" by (simp add: ishidden_def)
  ultimately show ?thesis
    by (simp add: glob_def fnmatch_star_literal [OF lit])
qed

lemma candidate_files_plain:
  assumes "list_all plain (suffix_list a)"
  shows "candidate_files names directory a =
         concat (map (\<lambda>s. map (path_join (glob_dirname directory))
                               (filter (\<lambda>n. \<not> ishidden n \<and> suffix s n) names)) (suffix_list a))"
proof (cases a)
  case (SuffixStr s)
  then show ?thesis using assms by (simp add: candidate_files_def suffix_list_def glob_star_suffix)
next
  case (SuffixList l)
  have eq: "map (\<lambda>s. glob names (path_join directory (42 # s))) l =
        map (\<lambda>s. map (path_join (glob_dirname directory))
                      (filter (\<lambda>n. \<not> ishidden n \<and> suffix s n) names)) l"
    using assms SuffixList by (intro map_cong) (auto simp: suffix_list_def list_all_iff glob_star_suffix)
  show ?thesis
    unfolding SuffixList candidate_files_def suffix_list_def suffix_arg.case eq ..
next
  case (SuffixOther r)
  then show ?thesis by (simp add: candidate_files_def suffix_list_def)
qed

lemma length_candidate_files:
  assumes "list_all plain (suffix_list a)" and "distinct names"
  shows "length (candidate_files names directory a) =
         (\<Sum>s\<leftarrow>suffix_list a. card {n \<in> set names. \<not> ishidden n \<and> suffix s n})"
proof -
  have "length (filter (\<lambda>n. \<not> ishidden n \<and> suffix s n) names) =
        card {n \<in> set names. \<not> ishidden n \<and> suffix s n}" for s
    using assms(2) by (simp add: distinct_length_filter Int_def conj_commute)
  then show ?thesis
    by (simp add: candidate_files_plain [OF assms(1)] length_concat comp_def)
qed

lemma hd_candidate_files:
  assumes "list_all plain (suffix_list a)" and "candidate_files names directory a \<noteq> []"
  shows "\<exists>n s. n \<in> set names \<and> s \<in> set (suffix_list a) \<and> \<not> ishidden n \<and> suffix s n \<and>
           hd (candidate_files names directory a) = path_join (glob_dirname directory) n"
proof -
  have "hd (candidate_files names directory a) \<in> set (candidate_files names directory a)"
    using assms(2) by simp
  then show ?thesis
    unfolding candidate_files_plain [OF assms(1)] by auto
qed


text \<open>
  C4 (as amended). For a directory path without wildcard characters, suffixes that
  \<open>glob\<close> reads literally and a listing without repeated names, count for every suffix
  the entries whose name does not start with a dot and ends with the suffix, and add the
  counts up (a string is one suffix, a list its elements, any other type none). With
  total 0 the call raises the "not found" error, with a total above 1 the "ambiguous"
  error, and with total 1 it returns the path of that entry.
\<close>

theorem get_single_file_with_suffix_counts:
  assumes "\<not> has_magic directory" and "list_all plain (suffix_list a)" and "distinct names"
  shows "(let k = (\<Sum>s\<leftarrow>suffix_list a. card {n \<in> set names. \<not> ishidden n \<and> suffix s n});
              r = get_single_file_with_suffix names directory a
          in (k = 0 \<longrightarrow> r = Inl (NoFileFound a directory)) \<and>
             (1 < k \<longrightarrow> r = Inl (TooManyFiles a directory)) \<and>
             (k = 1 \<longrightarrow> (\<exists>n s. n \<in> set names \<and> s \<in> set (suffix_list a) \<and> \<not> ishidden n \<and>
                             suffix s n \<and> r = Inr (path_join (glob_dirname directory) n))))"
proof -
  note len = length_candidate_files [OF assms(2,3), of directory]
  have one: "candidate_files names directory a \<noteq> [] \<Longrightarrow>
      \<exists>n s. n \<in> set names \<and> s \<in> set (suffix_list a) \<and> \<not> ishidden n \<and> suffix s n \<and>
        hd (candidate_files names directory a) = path_join (glob_dirname directory) n"
    by (rule hd_candidate_files [OF assms(2)])
  show ?thesis
    unfolding Let_def get_single_file_with_suffix_def len [symmetric]
    using one by (cases "candidate_files names directory a") auto
qed

theorem get_single_file_with_suffix_counts_witness:
  "\<not> has_magic (lit ''/d'') \<and>
   distinct [lit ''project.vott'', lit ''a-asset.json''] \<and> plain (lit ''.vott'') \<and>
   get_single_file_with_suffix [lit ''project.vott'', lit ''a-asset.json''] (lit ''/d'')
     (SuffixStr (lit ''.vott'')) = Inr (lit ''/d/project.vott'')"
proof -
  let ?names = "[lit ''project.vott'', lit ''a-asset.json'']"
  have set_eq: "{n \<in> set ?names. \<not> ishidden n \<and> suffix (lit ''.vott'') n} = {lit ''project.vott''}"
    by (auto simp: lit_def ishidden_def suffix_to_prefix)
  have dir: "glob_dirname (lit ''/d'') = lit ''/d''"
    by (rule glob_dirname_plain) (simp_all add: lit_def sep_def suffix_to_prefix)
  have plain: "plain (lit ''.vott'')"
    by (simp add: plain_def lit_def sep_def)
  then have hyp: "list_all plain (suffix_list (SuffixStr (lit ''.vott'')))"
    by (simp add: suffix_list_def)
  have dist: "distinct ?names"
    by (simp add: lit_def)
  have magic: "\<not> has_magic (lit ''/d'')"
    by (simp add: has_magic_def lit_def)
  have k: "(\<Sum>s\<leftarrow>suffix_list (SuffixStr (lit ''.vott'')).
              card {n \<in> set ?names. \<not> ishidden n \<and> suffix s n}) = 1"
    unfolding suffix_list_def suffix_arg.case by (simp add: set_eq del: set_simps)
  obtain n s where n: "n \<in> set ?names" "\<not> ishidden n"
      and s: "s \<in> set (suffix_list (SuffixStr (lit ''.vott'')))" "suffix s n"
      and r: "get_single_file_with_suffix ?names (lit ''/d'') (SuffixStr (lit ''.vott'')) =
              Inr (path_join (glob_dirname (lit ''/d'')) n)"
    using get_single_file_with_suffix_counts [OF magic hyp dist] k
    unfolding Let_def by blast
  have "n \<in> {n \<in> set ?names. \<not> ishidden n \<and> suffix (lit ''.vott'') n}"
    using n s by (simp add: suffix_list_def)
  then have "n = lit ''project.vott''"
    unfolding set_eq by simp
  then have "path_join (glob_dirname (lit ''/d'')) n = lit ''/d/project.vott''"
    by (simp add: dir) (simp add: path_join_def lit_def sep_def suffix_to_prefix)
  then show ?thesis
    using r dist plain magic by simp
qed

text \<open>
  C4 fails as stated, in two ways. In a directory whose only entry is \<open>a.vott\<close>, one file
  ends with one of the suffixes \<open>.vott\<close>, \<open>tt\<close>, and the call raises the "ambiguous" error.
  In a directory whose only entry is \<open>.vott\<close>, one file ends with the suffix \<open>.vott\<close>, and
  the call raises the "not found" error: \<open>glob\<close> passes over names that start with a dot.
\<close>

theorem get_single_file_with_suffix_counterexample:
  "card {n \<in> set [lit ''a.vott'']. suffix (lit ''.vott'') n \<or> suffix (lit ''tt'') n} = 1 \<and>
   get_single_file_with_suffix [lit ''a.vott''] (lit ''/d'') (SuffixList [lit ''.vott'', lit ''tt'']) =
     Inl (TooManyFiles (SuffixList [lit ''.vott'', lit ''tt'']) (lit ''/d'')) \<and>
   card {n \<in> set [lit ''.vott'']. suffix (lit ''.vott'') n} = 1 \<and>
   get_single_file_with_suffix [lit ''.vott''] (lit ''/d'') (SuffixStr (lit ''.vott'')) =
     Inl (NoFileFound (SuffixStr (lit ''.vott'')) (lit ''/d''))"
proof -
  have "{n \<in> set [lit ''a.vott'']. suffix (lit ''.vott'') n \<or> suffix (lit ''tt'') n} = {lit ''a.vott''}"
    by (auto simp: lit_def suffix_to_prefix)
  moreover have "{n \<in> set [lit ''.vott'']. suffix (lit ''.vott'') n} = {lit ''.vott''}"
    by auto
  ultimately show ?thesis
    by (simp add: get_single_file_with_suffix_def candidate_files_def glob_def path_join_def
        path_split_def basename_def ishidden_def sep_def suffix_to_prefix del: set_simps)
      (simp add: lit_def)
qed

text \<open>
  C10. A suffix argument that is neither a string nor a list leaves the candidate list
  empty, and the call raises the "not found" error, which names the suffix and the
  directory.
\<close>

theorem get_single_file_with_suffix_other_type:
  "candidate_files names directory (SuffixOther r) = [] \<and>
   get_single_file_with_suffix names directory (SuffixOther r) =
     Inl (NoFileFound (SuffixOther r) directory)"
  by (simp add: get_single_file_with_suffix_def candidate_files_def)

text \<open>
  C8 (as amended). For a directory path without wildcard characters, a listing of
  distinct names (single path components) and a list of suffixes that \<open>glob\<close> reads
  literally: an entry whose name does not start with a dot is collected once for every
  listed suffix its name ends with; when there is more than one such suffix the call
  raises the "ambiguous" error, whatever else the directory holds.
\<close>

theorem candidate_once_per_suffix:
  assumes "\<not> has_magic directory" and "list_all plain sufs"
    and "distinct names" and "\<forall>m \<in> set names. sep \<notin> set m"
    and "n \<in> set names" and "\<not> ishidden n"
  shows "count_list (candidate_files names directory (SuffixList sufs))
           (path_join (glob_dirname directory) n) = length (filter (\<lambda>s. suffix s n) sufs) \<and>
         (1 < length (filter (\<lambda>s. suffix s n) sufs) \<longrightarrow>
            get_single_file_with_suffix names directory (SuffixList sufs) =
              Inl (TooManyFiles (SuffixList sufs) directory))"
proof -
  let ?d = "glob_dirname directory"
  have plain: "list_all plain (suffix_list (SuffixList sufs))"
    using assms(2) by (simp add: suffix_list_def)
  have inj: "inj_on (path_join ?d) (set names)"
    using assms(4) by (auto simp: inj_on_def path_join_plain)
  have one: "count_list (map (path_join ?d) (filter (\<lambda>m. \<not> ishidden m \<and> suffix s m) names))
               (path_join ?d n) = (if suffix s n then 1 else 0)" for s
  proof -
    have "count_list (map (path_join ?d) (filter (\<lambda>m. \<not> ishidden m \<and> suffix s m) names))
               (path_join ?d n) = count_list (filter (\<lambda>m. \<not> ishidden m \<and> suffix s m) names) n"
    proof (cases "n \<in> set (filter (\<lambda>m. \<not> ishidden m \<and> suffix s m) names)")
      case True
      then show ?thesis
        by (intro count_list_inj_map inj_on_subset [OF inj]) auto
    next
      case False
      then have "path_join ?d n \<notin> set (map (path_join ?d) (filter (\<lambda>m. \<not> ishidden m \<and> suffix s m) names))"
        using inj assms(5) by (auto simp: inj_on_def)
      then show ?thesis using False by simp
    qed
    also have "\<dots> = (if suffix s n then 1 else 0)"
      using assms(3,5,6) by (induction names) auto
    finally show ?thesis .
  qed
  have "count_list (concat (map (\<lambda>s. map (path_join ?d)
                               (filter (\<lambda>m. \<not> ishidden m \<and> suffix s m) names)) l)) (path_join ?d n) =
        length (filter (\<lambda>s. suffix s n) l)" for l
    by (induction l) (simp_all add: one)
  then have count: "count_list (candidate_files names directory (SuffixList sufs)) (path_join ?d n) =
      length (filter (\<lambda>s. suffix s n) sufs)"
    by (simp add: candidate_files_plain [OF plain] suffix_list_def)
  have "length (filter (\<lambda>s. suffix s n) sufs) \<le>
        length (candidate_files names directory (SuffixList sufs))"
    unfolding count [symmetric] by (rule count_le_length)
  then show ?thesis
    using count by (simp add: get_single_file_with_suffix_def)
qed

theorem candidate_once_per_suffix_witness:
  "\<not> has_magic (lit ''/d'') \<and>
   list_all plain [lit ''.json'', lit ''.vott'', lit ''-asset.json''] \<and>
   distinct [lit ''p.vott'', lit ''0a1b-asset.json''] \<and>
   list_all (\<lambda>m. sep \<notin> set m) [lit ''p.vott'', lit ''0a1b-asset.json''] \<and>
   \<not> ishidden (lit ''0a1b-asset.json'') \<and>
   filter (\<lambda>s. suffix s (lit ''0a1b-asset.json'')) [lit ''.json'', lit ''.vott'', lit ''-asset.json''] =
     [lit ''.json'', lit ''-asset.json''] \<and>
   count_list (candidate_files [lit ''p.vott'', lit ''0a1b-asset.json''] (lit ''/d'')
       (SuffixList [lit ''.json'', lit ''.vott'', lit ''-asset.json''])) (lit ''/d/0a1b-asset.json'') = 2 \<and>
   get_single_file_with_suffix [lit ''p.vott'', lit ''0a1b-asset.json''] (lit ''/d'')
       (SuffixList [lit ''.json'', lit ''.vott'', lit ''-asset.json'']) =
     Inl (TooManyFiles (SuffixList [lit ''.json'', lit ''.vott'', lit ''-asset.json'']) (lit ''/d''))"
proof -
  have dir: "glob_dirname (lit ''/d'') = lit ''/d''"
    by (rule glob_dirname_plain) (simp_all add: lit_def sep_def suffix_to_prefix)
  have h1: "\<not> has_magic (lit ''/d'')"
    and h2: "list_all plain [lit ''.json'', lit ''.vott'', lit ''-asset.json'']"
    and h3: "distinct [lit ''p.vott'', lit ''0a1b-asset.json'']"
    and h4: "\<forall>m \<in> set [lit ''p.vott'', lit ''0a1b-asset.json'']. sep \<notin> set m"
    and h5: "lit ''0a1b-asset.json'' \<in> set [lit ''p.vott'', lit ''0a1b-asset.json'']"
    and h6: "\<not> ishidden (lit ''0a1b-asset.json'')"
    by (simp_all add: has_magic_def plain_def ishidden_def lit_def sep_def)
  have sel: "filter (\<lambda>s. suffix s (lit ''0a1b-asset.json'')) [lit ''.json'', lit ''.vott'', lit ''-asset.json''] =
     [lit ''.json'', lit ''-asset.json'']"
    by (simp add: lit_def suffix_to_prefix)
  have path: "path_join (lit ''/d'') (lit ''0a1b-asset.json'') = lit ''/d/0a1b-asset.json''"
    by (simp add: path_join_def lit_def sep_def suffix_to_prefix)
  show ?thesis
    using candidate_once_per_suffix [OF h1 h2 h3 h4 h5 h6] h1 h2 h3 h4 h6
    unfolding sel dir path by (simp add: sel list_all_iff)
qed

text \<open>
  C8 fails as stated for a name that starts with a dot: the only entry \<open>.vott\<close> ends with
  both listed suffixes, \<open>glob\<close> collects it for neither, and the call raises the "not
  found" error (the directory path \<open>/d\<close> has no wildcard character).
\<close>

theorem candidate_once_per_suffix_counterexample:
  "suffix (lit ''.vott'') (lit ''.vott'') \<and> suffix (lit ''vott'') (lit ''.vott'') \<and>
   candidate_files [lit ''.vott''] (lit ''/d'') (SuffixList [lit ''.vott'', lit ''vott'']) = [] \<and>
   get_single_file_with_suffix [lit ''.vott''] (lit ''/d'') (SuffixList [lit ''.vott'', lit ''vott'']) =
     Inl (NoFileFound (SuffixList [lit ''.vott'', lit ''vott'']) (lit ''/d''))"
  by (simp add: get_single_file_with_suffix_def candidate_files_def glob_def path_join_def
      path_split_def basename_def ishidden_def sep_def lit_def suffix_to_prefix)


section \<open>Paths inside the metadata directory\<close>

lemma basename_path_join:
  assumes "sep \<notin> set n"
  shows "basename (path_join d n) = n"
  unfolding path_join_plain [OF assms]
  by (rule basename_append [OF assms]) (auto simp: suffix_def)

lemma isfile_path_join:
  assumes "sep \<notin> set n"
  shows "isfile fs (path_join d n) = (case map_of fs n of Some (RegularFile t) \<Rightarrow> True | _ \<Rightarrow> False)"
  by (simp add: isfile_def basename_path_join [OF assms])

lemma os_rename_fresh:
  assumes "basename src = a" and "basename dst = b"
    and "a \<in> fst ` set fs" and "b \<notin> fst ` set fs"
  shows "os_rename fs src dst = Inr (map (\<lambda>(n, x). (if n = a then b else n, x)) fs)"
proof -
  obtain sn where sn: "map_of fs a = Some sn"
    using assms(3) by (metis map_of_eq_None_iff not_Some_eq)
  have none: "map_of fs b = None"
    using assms(4) by (simp add: map_of_eq_None_iff)
  have neq: "a \<noteq> b" using assms(3,4) by auto
  have keep: "filter (\<lambda>(n, x). n \<noteq> b) fs = fs"
    using assms(4) by (auto simp: filter_id_conv rev_image_eqI)
  have eq: "map (\<lambda>(n, x). if n = a then (b, x) else (n, x)) fs =
        map (\<lambda>(n, x). (if n = a then b else n, x)) fs"
    by auto
  show ?thesis
    unfolding os_rename_def Let_def assms(1,2) sn none keep eq
    using neq by (simp split: node.split)
qed

lemma distinct_rename:
  "distinct xs \<Longrightarrow> b \<notin> set xs \<Longrightarrow> distinct (map (\<lambda>n. if n = a then b else n) xs)"
  by (induction xs) auto

section \<open>Pass 1: renaming the asset files\<close>

lemma rename_assets_unmapped:
  assumes "\<forall>n \<in> set ns. sep \<notin> set n" and "\<exists>n \<in> set ns. map_of ids (asset_key n) = None"
  shows "snd (rename_assets ids target (map (path_join d) ns) fs) \<noteq> None"
  using assms
proof (induction ns arbitrary: fs)
  case Nil
  then show ?case by simp
next
  case (Cons a ns)
  have key: "takeWhile (\<lambda>c. c \<noteq> 45) (basename (path_join d a)) = asset_key a"
    using Cons.prems(1) by (simp add: basename_path_join asset_key_def)
  show ?case
  proof (cases "map_of ids (asset_key a)")
    case None
    then show ?thesis by (simp add: key Let_def)
  next
    case (Some new_id)
    then have rest: "\<exists>n \<in> set ns. map_of ids (asset_key n) = None"
      using Cons.prems(2) by auto
    show ?thesis
    proof (cases "os_rename fs (path_join d a) (path_join target (new_id @ lit ''-asset.json''))")
      case (Inl e)
      then show ?thesis using Some by (simp add: key Let_def)
    next
      case (Inr fs')
      have "snd (rename_assets ids target (map (path_join d) ns) fs') \<noteq> None"
        using Cons.prems(1) rest by (intro Cons.IH) auto
      then show ?thesis using Some Inr by (simp add: key Let_def)
    qed
  qed
qed

lemma rename_assets_names:
  assumes "distinct ns" and "set ns \<subseteq> fst ` set fs" and "distinct (map fst fs)"
    and "\<forall>n \<in> set ns. sep \<notin> set n" and "\<forall>(old, new) \<in> set ids. sep \<notin> set new"
    and "distinct (map (new_asset_name ids) (takeWhile (\<lambda>n. map_of ids (asset_key n) \<noteq> None) ns))"
    and "\<forall>n \<in> set (takeWhile (\<lambda>n. map_of ids (asset_key n) \<noteq> None) ns).
           new_asset_name ids n \<notin> fst ` set fs"
  shows "rename_assets ids target (map (path_join d) ns) fs =
         (map (\<lambda>(n, x). (if n \<in> set (takeWhile (\<lambda>n. map_of ids (asset_key n) \<noteq> None) ns)
                           then new_asset_name ids n else n, x)) fs,
          case dropWhile (\<lambda>n. map_of ids (asset_key n) \<noteq> None) ns of
            [] \<Rightarrow> None | n # _ \<Rightarrow> Some (KeyError (asset_key n)))"
  using assms(1,2,3,4,6,7)
proof (induction ns arbitrary: fs)
  case Nil
  show ?case by simp
next
  case (Cons a ns)
  let ?ok = "\<lambda>n. map_of ids (asset_key n) \<noteq> None"
  have a: "sep \<notin> set a" "a \<in> fst ` set fs" "a \<notin> set ns"
    using Cons.prems by auto
  have key: "takeWhile (\<lambda>c. c \<noteq> 45) (basename (path_join d a)) = asset_key a"
    by (simp add: basename_path_join [OF a(1)] asset_key_def)
  show ?case
  proof (cases "map_of ids (asset_key a)")
    case None
    then show ?thesis by (simp add: key Let_def)
  next
    case (Some new_id)
    let ?b = "new_id @ lit ''-asset.json''"
    let ?fs' = "map (\<lambda>(n, x). (if n = a then ?b else n, x)) fs"
    have new: "new_asset_name ids a = ?b"
      by (simp add: new_asset_name_def Some)
    have "(asset_key a, new_id) \<in> set ids"
      using Some by (rule map_of_SomeD)
    then have "sep \<notin> set new_id" using assms(5) by auto
    then have b: "sep \<notin> set ?b" by (simp add: lit_def sep_def)
    have fresh: "?b \<notin> fst ` set fs"
      using Cons.prems(6) Some new by simp
    have rename: "os_rename fs (path_join d a) (path_join target ?b) = Inr ?fs'"
      using basename_path_join [OF a(1)] basename_path_join [OF b] a(2) fresh
      by (rule os_rename_fresh)
    have names': "map fst ?fs' = map (\<lambda>n. if n = a then ?b else n) (map fst fs)"
      by (simp add: comp_def case_prod_unfold)
    have sub: "set ns \<subseteq> fst ` set ?fs'"
    proof
      fix n assume n: "n \<in> set ns"
      then have "n \<noteq> a" using a(3) by auto
      moreover have "n \<in> fst ` set fs" using n Cons.prems(2) by auto
      ultimately show "n \<in> fst ` set ?fs'" by (force simp: image_iff)
    qed
    have dist': "distinct (map fst ?fs')"
      unfolding names' using Cons.prems(3) fresh
      by (intro distinct_rename) auto
    have both: "distinct (map (new_asset_name ids) (a # takeWhile ?ok ns))"
      using Cons.prems(5) Some by simp
    then have dist_new: "distinct (map (new_asset_name ids) (takeWhile ?ok ns))"
      by simp
    have "?b \<notin> new_asset_name ids ` set (takeWhile ?ok ns)"
      using both new by simp
    then have other: "\<forall>n \<in> set (takeWhile ?ok ns). new_asset_name ids n \<noteq> ?b"
      by (metis image_eqI)
    have img: "fst ` set ?fs' \<subseteq> insert ?b (fst ` set fs)"
      by force
    have fresh': "\<forall>n \<in> set (takeWhile ?ok ns). new_asset_name ids n \<notin> fst ` set ?fs'"
    proof
      fix n assume n: "n \<in> set (takeWhile ?ok ns)"
      then have "new_asset_name ids n \<notin> fst ` set fs" "new_asset_name ids n \<noteq> ?b"
        using Cons.prems(6) Some other by auto
      then show "new_asset_name ids n \<notin> fst ` set ?fs'" using img by blast
    qed
    have IH: "rename_assets ids target (map (path_join d) ns) ?fs' =
         (map (\<lambda>(n, x). (if n \<in> set (takeWhile ?ok ns) then new_asset_name ids n else n, x)) ?fs',
          case dropWhile ?ok ns of [] \<Rightarrow> None | n # _ \<Rightarrow> Some (KeyError (asset_key n)))"
      using Cons.prems(1,4) by (intro Cons.IH sub dist' dist_new fresh') auto
    have inside: "set (takeWhile ?ok ns) \<subseteq> fst ` set fs"
      using Cons.prems(2) set_takeWhileD by fastforce
    have compose: "map (\<lambda>(n, x). (if n \<in> set (takeWhile ?ok ns) then new_asset_name ids n else n, x)) ?fs' =
        map (\<lambda>(n, x). (if n \<in> set (takeWhile ?ok (a # ns)) then new_asset_name ids n else n, x)) fs"
    proof -
      have "?b \<notin> set (takeWhile ?ok ns)" using fresh inside by auto
      moreover have "a \<notin> set (takeWhile ?ok ns)" using a(3) set_takeWhileD by fastforce
      ultimately show ?thesis using Some new by auto
    qed
    have dw: "dropWhile ?ok (a # ns) = dropWhile ?ok ns"
      using Some by simp
    have unfold: "rename_assets ids target (map (path_join d) (a # ns)) fs =
        rename_assets ids target (map (path_join d) ns) ?fs'"
      using Some by (simp add: key Let_def rename)
    show ?thesis
      unfolding unfold IH compose dw ..
  qed
qed

text \<open>
  C2 (as amended). For a metadata directory path without wildcard characters, a listing
  of distinct names (single path components) and new identifiers without separator:
  Pass 1 runs its loop over the entries, in listing order, whose name does not start with
  a dot and ends with \<open>-asset.json\<close>, whatever stands in front; the old identifier of an
  entry is the text in front of the first \<open>-\<close> of its name; and when the mapping lacks
  the identifier of one of these entries, the run ends with an exception. When moreover
  the new names (new identifier and \<open>-asset.json\<close>) of the entries in front of the first
  one that the mapping lacks differ from each other and from every name in the directory:
  each of these entries is there under its new name with what it held, its old name is
  gone, every other entry is as before, and the run ends with \<open>KeyError\<close> at the first
  entry the mapping lacks, if there is one.
\<close>

theorem rename_pass_result:
  assumes "\<not> has_magic target_directory"
    and "distinct (map fst fs)" and "\<forall>n \<in> set (map fst fs). sep \<notin> set n"
    and "\<forall>(old, new) \<in> set ids. sep \<notin> set new"
  shows "rename_pass ids target_directory fs =
           rename_assets ids target_directory
             (map (path_join (glob_dirname target_directory)) (asset_files fs)) fs \<and>
         (unmapped ids fs \<noteq> [] \<longrightarrow> snd (rename_pass ids target_directory fs) \<noteq> None) \<and>
         (distinct (map (new_asset_name ids) (renamed ids fs)) \<and>
          (\<forall>n \<in> set (renamed ids fs). new_asset_name ids n \<notin> set (map fst fs)) \<longrightarrow>
            rename_pass ids target_directory fs =
              (map (\<lambda>(n, x). (if n \<in> set (renamed ids fs) then new_asset_name ids n else n, x)) fs,
               case unmapped ids fs of [] \<Rightarrow> None | n # _ \<Rightarrow> Some (KeyError (asset_key n))) \<and>
            (\<forall>n \<in> set (renamed ids fs).
               new_asset_name ids n \<in> fst ` set (fst (rename_pass ids target_directory fs)) \<and>
               n \<notin> fst ` set (fst (rename_pass ids target_directory fs))))"
proof -
  let ?ns = "asset_files fs"
  have "plain (lit ''-asset.json'')" by (simp add: plain_def lit_def sep_def)
  then have glob: "glob (map fst fs) (path_join target_directory (lit ''*-asset.json'')) =
      map (path_join (glob_dirname target_directory)) ?ns"
    using glob_star_suffix [of "lit ''-asset.json''" "map fst fs" target_directory]
    by (simp add: lit_def asset_files_def)
  have loop: "rename_pass ids target_directory fs =
      rename_assets ids target_directory (map (path_join (glob_dirname target_directory)) ?ns) fs"
    by (simp add: rename_pass_def glob)
  have ns: "distinct ?ns" "set ?ns \<subseteq> fst ` set fs" "\<forall>n \<in> set ?ns. sep \<notin> set n"
    using assms(2,3) by (auto simp: asset_files_def)
  have fatal: "snd (rename_pass ids target_directory fs) \<noteq> None" if "unmapped ids fs \<noteq> []"
  proof -
    have "\<exists>n \<in> set ?ns. map_of ids (asset_key n) = None"
      using that by (auto simp: unmapped_def dropWhile_eq_Nil_conv)
    then show ?thesis
      unfolding loop using ns(3) by (intro rename_assets_unmapped)
  qed
  have fresh: "rename_pass ids target_directory fs =
              (map (\<lambda>(n, x). (if n \<in> set (renamed ids fs) then new_asset_name ids n else n, x)) fs,
               case unmapped ids fs of [] \<Rightarrow> None | n # _ \<Rightarrow> Some (KeyError (asset_key n))) \<and>
            (\<forall>n \<in> set (renamed ids fs).
               new_asset_name ids n \<in> fst ` set (fst (rename_pass ids target_directory fs)) \<and>
               n \<notin> fst ` set (fst (rename_pass ids target_directory fs)))"
    if h4: "distinct (map (new_asset_name ids) (renamed ids fs))"
      and h5: "\<forall>n \<in> set (renamed ids fs). new_asset_name ids n \<notin> set (map fst fs)"
  proof -
    have result: "rename_pass ids target_directory fs =
             (map (\<lambda>(n, x). (if n \<in> set (renamed ids fs) then new_asset_name ids n else n, x)) fs,
              case unmapped ids fs of [] \<Rightarrow> None | n # _ \<Rightarrow> Some (KeyError (asset_key n)))"
      unfolding loop renamed_def unmapped_def
      using ns(1,2) assms(2) ns(3) assms(4) h4 [unfolded renamed_def] h5 [unfolded renamed_def]
      by (intro rename_assets_names) auto
    have inside: "set (renamed ids fs) \<subseteq> fst ` set fs"
      using ns(2) set_takeWhileD unfolding renamed_def by fastforce
    have "new_asset_name ids n \<in> fst ` set (fst (rename_pass ids target_directory fs)) \<and>
          n \<notin> fst ` set (fst (rename_pass ids target_directory fs))"
      if n: "n \<in> set (renamed ids fs)" for n
    proof
      obtain x where "(n, x) \<in> set fs" using n inside by auto
      then show "new_asset_name ids n \<in> fst ` set (fst (rename_pass ids target_directory fs))"
        unfolding result using n by (force simp: image_iff)
      show "n \<notin> fst ` set (fst (rename_pass ids target_directory fs))"
      proof
        assume "n \<in> fst ` set (fst (rename_pass ids target_directory fs))"
        then obtain m x where m: "(m, x) \<in> set fs"
            and eq: "n = (if m \<in> set (renamed ids fs) then new_asset_name ids m else m)"
          unfolding result by auto
        show False
        proof (cases "m \<in> set (renamed ids fs)")
          case True
          then have "new_asset_name ids m \<notin> set (map fst fs)" using h5 by blast
          then show False using eq True n inside by auto
        next
          case False
          then show False using eq n by simp
        qed
      qed
    qed
    then show ?thesis using result by blast
  qed
  show ?thesis
    using loop fatal fresh by blast
qed

theorem rename_pass_result_witness:
  "(let fs = [(lit ''p.vott'', RegularFile []),
              (lit ''ba4eb9e76e2148bb7dc5b82bdccb7dbc-asset.json'', RegularFile (lit ''x'')),
              (lit ''export'', Directory False)];
        ids = [(lit ''ba4eb9e76e2148bb7dc5b82bdccb7dbc'', lit ''e38d7cbea47d2b337b23112e6448bae5'')]
    in \<not> has_magic (lit ''/t'') \<and>
       distinct (map fst fs) \<and> list_all (\<lambda>n. sep \<notin> set n) (map fst fs) \<and>
       list_all (\<lambda>(old, new). sep \<notin> set new) ids \<and>
       asset_files fs = [lit ''ba4eb9e76e2148bb7dc5b82bdccb7dbc-asset.json''] \<and>
       renamed ids fs = [lit ''ba4eb9e76e2148bb7dc5b82bdccb7dbc-asset.json''] \<and>
       unmapped ids fs = [] \<and>
       new_asset_name ids (lit ''ba4eb9e76e2148bb7dc5b82bdccb7dbc-asset.json'') =
         lit ''e38d7cbea47d2b337b23112e6448bae5-asset.json'' \<and>
       lit ''e38d7cbea47d2b337b23112e6448bae5-asset.json'' \<notin> set (map fst fs) \<and>
       rename_pass ids (lit ''/t'') fs =
         ([(lit ''p.vott'', RegularFile []),
           (lit ''e38d7cbea47d2b337b23112e6448bae5-asset.json'', RegularFile (lit ''x'')),
           (lit ''export'', Directory False)], None))"
proof -
  let ?fs = "[(lit ''p.vott'', RegularFile []),
              (lit ''ba4eb9e76e2148bb7dc5b82bdccb7dbc-asset.json'', RegularFile (lit ''x'')),
              (lit ''export'', Directory False)]"
  let ?ids = "[(lit ''ba4eb9e76e2148bb7dc5b82bdccb7dbc'', lit ''e38d7cbea47d2b337b23112e6448bae5'')]"
  have files: "asset_files ?fs = [lit ''ba4eb9e76e2148bb7dc5b82bdccb7dbc-asset.json'']"
    by (simp add: asset_files_def ishidden_def lit_def suffix_to_prefix)
  have key: "asset_key (lit ''ba4eb9e76e2148bb7dc5b82bdccb7dbc-asset.json'') = lit ''ba4eb9e76e2148bb7dc5b82bdccb7dbc''"
    by (simp add: asset_key_def lit_def)
  have ren: "renamed ?ids ?fs = [lit ''ba4eb9e76e2148bb7dc5b82bdccb7dbc-asset.json'']"
    and unm: "unmapped ?ids ?fs = []"
    by (simp_all add: renamed_def unmapped_def files key)
  have new: "new_asset_name ?ids (lit ''ba4eb9e76e2148bb7dc5b82bdccb7dbc-asset.json'') =
         lit ''e38d7cbea47d2b337b23112e6448bae5-asset.json''"
    by (simp add: new_asset_name_def key) (simp add: lit_def)
  have h0: "\<not> has_magic (lit ''/t'')"
    by (simp add: has_magic_def lit_def)
  have h1: "distinct (map fst ?fs)" and h2: "\<forall>n \<in> set (map fst ?fs). sep \<notin> set n"
    and h3: "\<forall>(old, new) \<in> set ?ids. sep \<notin> set new"
    by (simp_all add: lit_def sep_def)
  have h4: "distinct (map (new_asset_name ?ids) (renamed ?ids ?fs))"
    unfolding ren by simp
  have free: "lit ''e38d7cbea47d2b337b23112e6448bae5-asset.json'' \<notin> set (map fst ?fs)"
    by (simp add: lit_def)
  then have h5: "\<forall>n \<in> set (renamed ?ids ?fs). new_asset_name ?ids n \<notin> set (map fst ?fs)"
    unfolding ren by (simp add: new)
  have "rename_pass ?ids (lit ''/t'') ?fs =
         (map (\<lambda>(n, x). (if n \<in> set (renamed ?ids ?fs) then new_asset_name ?ids n else n, x)) ?fs,
          case unmapped ?ids ?fs of [] \<Rightarrow> None | n # _ \<Rightarrow> Some (KeyError (asset_key n)))"
    using rename_pass_result [OF h0 h1 h2 h3] h4 h5 by blast
  then have "rename_pass ?ids (lit ''/t'') ?fs =
         ([(lit ''p.vott'', RegularFile []),
           (lit ''e38d7cbea47d2b337b23112e6448bae5-asset.json'', RegularFile (lit ''x'')),
           (lit ''export'', Directory False)], None)"
    unfolding ren unm by (simp add: new) (simp add: lit_def)
  then show ?thesis
    unfolding Let_def using h0 h1 h2 h3 files ren unm new free by (simp add: list_all_iff)
qed

text \<open>
  C2 fails as stated, in two ways. An entry \<open>notes-asset.json\<close> does not have the form of
  32 hexadecimal digits and \<open>-asset.json\<close>, yet Pass 1 processes it: with \<open>notes\<close> in
  the mapping the entry is renamed, without it the run ends with \<open>KeyError\<close>. And for
  entries of that form the new name need not exist, nor the old name be gone, afterwards:
  when the new identifier is the old one (the assets have not moved) the entry keeps its
  name; and when the new identifier of \<open>aa...a\<close> is \<open>bb...b\<close>, whose own entry comes
  later in the listing and is renamed to \<open>cc...c\<close>, the first rename replaces the second
  entry and the second rename takes the file along, so that no entry has the first
  entry's new name and what the second entry held is lost.
\<close>

theorem rename_pass_counterexample:
  "\<not> hex32_asset_name (lit ''notes-asset.json'') \<and>
   rename_pass [(lit ''notes'', lit ''e38d7cbea47d2b337b23112e6448bae5'')] (lit ''/t'')
       [(lit ''notes-asset.json'', RegularFile (lit ''x''))] =
     ([(lit ''e38d7cbea47d2b337b23112e6448bae5-asset.json'', RegularFile (lit ''x''))], None) \<and>
   rename_pass [] (lit ''/t'') [(lit ''notes-asset.json'', RegularFile (lit ''x''))] =
     ([(lit ''notes-asset.json'', RegularFile (lit ''x''))], Some (KeyError (lit ''notes''))) \<and>
   hex32_asset_name (lit ''aaaaaaaaaaaaaaaaaaaaaaaaaaaaaaaa-asset.json'') \<and>
   hex32_asset_name (lit ''bbbbbbbbbbbbbbbbbbbbbbbbbbbbbbbb-asset.json'') \<and>
   rename_pass [(lit ''aaaaaaaaaaaaaaaaaaaaaaaaaaaaaaaa'', lit ''aaaaaaaaaaaaaaaaaaaaaaaaaaaaaaaa'')] (lit ''/t'')
       [(lit ''aaaaaaaaaaaaaaaaaaaaaaaaaaaaaaaa-asset.json'', RegularFile (lit ''x''))] =
     ([(lit ''aaaaaaaaaaaaaaaaaaaaaaaaaaaaaaaa-asset.json'', RegularFile (lit ''x''))], None) \<and>
   rename_pass [(lit ''aaaaaaaaaaaaaaaaaaaaaaaaaaaaaaaa'', lit ''bbbbbbbbbbbbbbbbbbbbbbbbbbbbbbbb''),
                (lit ''bbbbbbbbbbbbbbbbbbbbbbbbbbbbbbbb'', lit ''cccccccccccccccccccccccccccccccc'')] (lit ''/t'')
       [(lit ''aaaaaaaaaaaaaaaaaaaaaaaaaaaaaaaa-asset.json'', RegularFile (lit ''x'')),
        (lit ''bbbbbbbbbbbbbbbbbbbbbbbbbbbbbbbb-asset.json'', RegularFile (lit ''y''))] =
     ([(lit ''cccccccccccccccccccccccccccccccc-asset.json'', RegularFile (lit ''x''))], None)"
  by (simp add: hex32_asset_name_def rename_pass_def glob_def path_join_def path_split_def
      basename_def ishidden_def os_rename_def sep_def lit_def suffix_to_prefix)


section \<open>Pass 2: the directory substitution\<close>

lemma old_source_directory_empty:
  assumes "sep \<notin> set (drop (length (lit ''file:'')) path_value)"
  shows "old_source_directory path_value = []"
proof -
  have "basename (drop (length (lit ''file:'')) path_value) = drop (length (lit ''file:'')) path_value"
    using basename_append [OF assms, of "[]"] by simp
  then show ?thesis
    by (simp add: old_source_directory_def path_split_def Let_def)
qed

lemma basename_backup:
  assumes "sep \<notin> set n"
  shows "basename (path_join d n @ lit ''.bak'') = n @ lit ''.bak''"
proof -
  have bak: "sep \<notin> set (n @ lit ''.bak'')"
    using assms by (simp add: lit_def sep_def)
  have "path_join d n @ lit ''.bak'' = path_join d (n @ lit ''.bak'')"
    by (simp add: path_join_plain [OF assms] path_join_plain [OF bak])
  then show ?thesis
    by (simp add: basename_path_join [OF bak])
qed

lemma map_of_renamed:
  assumes "distinct (map fst fs)" and "map_of fs a = Some x" and "b \<notin> fst ` set fs"
  shows "map_of (map (\<lambda>(n, x). (if n = a then b else n, x)) fs) b = Some x"
proof -
  have names: "map fst (map (\<lambda>(n, x). (if n = a then b else n, x)) fs) =
      map (\<lambda>n. if n = a then b else n) (map fst fs)"
    by (simp add: comp_def case_prod_unfold)
  have "distinct (map fst (map (\<lambda>(n, x). (if n = a then b else n, x)) fs))"
    unfolding names using assms(1,3) by (intro distinct_rename) auto
  moreover have "(a, x) \<in> set fs"
    using assms(2) by (rule map_of_SomeD)
  then have "(b, x) \<in> set (map (\<lambda>(n, x). (if n = a then b else n, x)) fs)"
    by force
  ultimately show ?thesis by (rule map_of_is_SomeI)
qed

lemma rewrite_in_place:
  assumes "distinct (map fst fs)" and "map_of fs a = Some (RegularFile t)" and "b \<notin> fst ` set fs"
  shows "map (\<lambda>(n, x). if n = b then (a, RegularFile (f t)) else (n, x))
           (map (\<lambda>(n, x). (if n = a then b else n, x)) fs) =
         map (\<lambda>(n, x). (n, if n = a then rewrite_node f x else x)) fs"
proof -
  have "(case (case p of (n, x) \<Rightarrow> (if n = a then b else n, x)) of
           (n, x) \<Rightarrow> if n = b then (a, RegularFile (f t)) else (n, x)) =
        (case p of (n, x) \<Rightarrow> (n, if n = a then rewrite_node f x else x))"
    if p: "p \<in> set fs" for p
  proof -
    obtain n x where nx: "p = (n, x)" by (cases p)
    have look: "map_of fs n = Some x" using assms(1) p nx by simp
    have "n \<noteq> b" using assms(3) p nx by force
    then show ?thesis
      using look assms(2) unfolding nx by (auto simp: rewrite_node_def)
  qed
  then show ?thesis by simp
qed

lemma rewrite_files_names:
  assumes "distinct ns" and "\<forall>n \<in> set ns. sep \<notin> set n" and "distinct (map fst fs)"
    and "\<forall>n \<in> set ns. \<exists>t. map_of fs n = Some (RegularFile t)"
    and "\<forall>n \<in> set ns. n @ lit ''.bak'' \<notin> fst ` set fs"
  shows "rewrite_files f (map (path_join d) ns) fs =
         (map (\<lambda>(n, x). (n, if n \<in> set ns then rewrite_node f x else x)) fs, None)"
  using assms
proof (induction ns arbitrary: fs)
  case Nil
  show ?case by simp
next
  case (Cons a ns)
  let ?b = "a @ lit ''.bak''"
  let ?fs2 = "map (\<lambda>(n, x). (if n = a then ?b else n, x)) fs"
  let ?fs3 = "map (\<lambda>(n, x). (n, if n = a then rewrite_node f x else x)) fs"
  have a: "sep \<notin> set a" "a \<notin> set ns" "?b \<notin> fst ` set fs"
    using Cons.prems by auto
  obtain t where t: "map_of fs a = Some (RegularFile t)"
    using Cons.prems(4) by auto
  then have inside: "a \<in> fst ` set fs"
    by (metis map_of_SomeD fst_conv image_eqI)
  have base: "basename (path_join d a) = a" "basename (path_join d a @ lit ''.bak'') = ?b"
    using a(1) by (simp_all add: basename_path_join basename_backup)
  have none: "map_of fs ?b = None"
    using a(3) by (simp add: map_of_eq_None_iff)
  have unlink: "os_unlink_quiet fs (path_join d a @ lit ''.bak'') = fs"
    by (simp add: os_unlink_quiet_def base none)
  have rename: "os_rename fs (path_join d a) (path_join d a @ lit ''.bak'') = Inr ?fs2"
    using base inside a(3) by (rule os_rename_fresh)
  have backup: "map_of ?fs2 ?b = Some (RegularFile t)"
    using Cons.prems(3) t a(3) by (rule map_of_renamed)
  have place: "map (\<lambda>(n, x). if n = ?b then (a, RegularFile (f t)) else (n, x)) ?fs2 = ?fs3"
    using Cons.prems(3) t a(3) by (rule rewrite_in_place)
  have step: "rewrite_files f (map (path_join d) (a # ns)) fs =
      rewrite_files f (map (path_join d) ns) ?fs3"
    by (simp only: list.map rewrite_files.simps Let_def unlink rename sum.case base backup
        option.case node.case place)
  have names: "map fst ?fs3 = map fst fs"
    by (simp add: comp_def case_prod_unfold)
  have look: "map_of ?fs3 n = map_of fs n" if "n \<noteq> a" for n
    using that by (induction fs) auto
  have "rewrite_files f (map (path_join d) ns) ?fs3 =
      (map (\<lambda>(n, x). (n, if n \<in> set ns then rewrite_node f x else x)) ?fs3, None)"
  proof (rule Cons.IH)
    show "distinct ns" "\<forall>n \<in> set ns. sep \<notin> set n"
      using Cons.prems(1,2) by auto
    show "distinct (map fst ?fs3)"
      unfolding names by (rule Cons.prems(3))
    show "\<forall>n \<in> set ns. \<exists>t. map_of ?fs3 n = Some (RegularFile t)"
    proof
      fix n assume n: "n \<in> set ns"
      then have "n \<noteq> a" using a(2) by auto
      then show "\<exists>t. map_of ?fs3 n = Some (RegularFile t)"
        using Cons.prems(4) n by (simp add: look)
    qed
    have "fst ` set ?fs3 = fst ` set fs"
      by (force simp: image_iff)
    then show "\<forall>n \<in> set ns. n @ lit ''.bak'' \<notin> fst ` set ?fs3"
      using Cons.prems(5) by simp
  qed
  also have "map (\<lambda>(n, x). (n, if n \<in> set ns then rewrite_node f x else x)) ?fs3 =
      map (\<lambda>(n, x). (n, if n \<in> set (a # ns) then rewrite_node f x else x)) fs"
    using a(2) by auto
  finally show ?case
    unfolding step .
qed

lemma rewrite_pass_visible:
  assumes "distinct (map fst fs)" and "\<forall>n \<in> set (map fst fs). sep \<notin> set n"
    and "\<forall>n \<in> set (rewritten fs). n @ lit ''.bak'' \<notin> set (map fst fs)"
  shows "rewrite_pass ids old_dir new_dir target_directory fs =
         (map (\<lambda>(n, x). (n, if ishidden n then x else rewrite_node (rewrite_text ids old_dir new_dir) x)) fs,
          None)"
proof -
  let ?f = "rewrite_text ids old_dir new_dir"
  let ?d = "glob_dirname target_directory"
  let ?reg = "\<lambda>n. case map_of fs n of Some (RegularFile t) \<Rightarrow> True | _ \<Rightarrow> False"
  have "plain []" by (simp add: plain_def)
  then have glob: "glob (map fst fs) (path_join target_directory (lit ''*'')) =
      map (path_join ?d) (filter (\<lambda>n. \<not> ishidden n) (map fst fs))"
    using glob_star_suffix [of "[]" "map fst fs" target_directory] by (simp add: lit_def)
  have "filter (isfile fs) (map (path_join ?d) xs) = map (path_join ?d) (filter ?reg xs)"
    if "\<forall>n \<in> set xs. sep \<notin> set n" for xs
    using that by (induction xs) (simp_all add: isfile_path_join)
  from this [of "filter (\<lambda>n. \<not> ishidden n) (map fst fs)"]
  have "filter (isfile fs) (glob (map fst fs) (path_join target_directory (lit ''*''))) =
      map (path_join ?d) (filter ?reg (filter (\<lambda>n. \<not> ishidden n) (map fst fs)))"
    unfolding glob using assms(2) by auto
  also have "filter ?reg (filter (\<lambda>n. \<not> ishidden n) (map fst fs)) = rewritten fs"
    by (simp add: rewritten_def conj_commute)
  finally have files: "filter (isfile fs) (glob (map fst fs) (path_join target_directory (lit ''*''))) =
      map (path_join ?d) (rewritten fs)" .
  have ns: "distinct (rewritten fs)" "\<forall>n \<in> set (rewritten fs). sep \<notin> set n"
      "\<forall>n \<in> set (rewritten fs). n @ lit ''.bak'' \<notin> fst ` set fs"
    using assms by (auto simp: rewritten_def)
  have reg: "\<forall>n \<in> set (rewritten fs). \<exists>t. map_of fs n = Some (RegularFile t)"
  proof
    fix n assume "n \<in> set (rewritten fs)"
    then have "?reg n" by (simp add: rewritten_def)
    then show "\<exists>t. map_of fs n = Some (RegularFile t)"
      by (cases "map_of fs n") (auto split: node.splits)
  qed
  have "map (\<lambda>(n, x). (n, if n \<in> set (rewritten fs) then rewrite_node ?f x else x)) fs =
        map (\<lambda>(n, x). (n, if ishidden n then x else rewrite_node ?f x)) fs"
  proof (rule map_cong [OF refl])
    fix p assume p: "p \<in> set fs"
    obtain n x where nx: "p = (n, x)" by (cases p)
    have look: "map_of fs n = Some x" using assms(1) p nx by simp
    have "n \<in> set (map fst fs)" using p nx by force
    then have "(n \<in> set (rewritten fs)) = (\<not> ishidden n \<and> (\<exists>t. x = RegularFile t))"
      by (cases x) (simp_all add: rewritten_def look)
    then show "(case p of (n, x) \<Rightarrow> (n, if n \<in> set (rewritten fs) then rewrite_node ?f x else x)) =
               (case p of (n, x) \<Rightarrow> (n, if ishidden n then x else rewrite_node ?f x))"
      unfolding nx by (cases x) (auto simp: rewrite_node_def)
  qed
  then show ?thesis
    unfolding rewrite_pass_def files rewrite_files_names [OF ns(1,2) assms(1) reg ns(3)] by simp
qed

lemma str_replace_empty: "str_replace s [] new = new @ concat (map (\<lambda>c. c # new) s)"
  by (simp add: str_replace_def)

text \<open>
  C9 (as amended). When the first asset's path, without its first five characters (the
  \<open>file:\<close> prefix), has no separator, the old source directory is the empty string; the
  directory substitution then puts the new source directory string in front of every
  character of the line (as the identifier loop left it) and at its end. For a metadata
  directory path without wildcard characters and a listing of distinct names (single
  path components) in which no entry has the name of a regular file without leading dot
  followed by \<open>.bak\<close>, Pass 2 does so to every line of every regular file whose name
  does not start with a dot, leaves the other entries as they are, and ends without an
  exception.
\<close>

theorem empty_old_source_directory:
  assumes "sep \<notin> set (drop (length (lit ''file:'')) path_value)"
    and "\<not> has_magic target_directory"
    and "distinct (map fst fs)" and "\<forall>n \<in> set (map fst fs). sep \<notin> set n"
    and "\<forall>n \<in> set (rewritten fs). n @ lit ''.bak'' \<notin> set (map fst fs)"
  shows "old_source_directory path_value = [] \<and>
         rewrite_line ids (old_source_directory path_value) new_dir line =
           new_dir @ concat (map (\<lambda>c. c # new_dir) (replace_ids ids line)) \<and>
         rewrite_pass ids (old_source_directory path_value) new_dir target_directory fs =
           (map (\<lambda>(n, x). (n, case x of
                  RegularFile t \<Rightarrow>
                    if ishidden n then RegularFile t
                    else RegularFile (concat (map (\<lambda>line. new_dir @ concat (map (\<lambda>c. c # new_dir) (replace_ids ids line)))
                                       (text_lines (universal_newlines t))))
                | Directory b \<Rightarrow> Directory b)) fs, None)"
proof -
  note empty = old_source_directory_empty [OF assms(1)]
  have line: "rewrite_line ids [] new_dir l = new_dir @ concat (map (\<lambda>c. c # new_dir) (replace_ids ids l))" for l
    by (simp add: rewrite_line_def str_replace_empty)
  have linef: "rewrite_line ids [] new_dir =
      (\<lambda>line. new_dir @ concat (map (\<lambda>c. c # new_dir) (replace_ids ids line)))"
    by (rule ext) (rule line)
  have "map (\<lambda>(n, x). (n, if ishidden n then x else rewrite_node (rewrite_text ids [] new_dir) x)) fs =
        map (\<lambda>(n, x). (n, case x of
                  RegularFile t \<Rightarrow>
                    if ishidden n then RegularFile t
                    else RegularFile (concat (map (\<lambda>line. new_dir @ concat (map (\<lambda>c. c # new_dir) (replace_ids ids line)))
                                       (text_lines (universal_newlines t))))
                | Directory b \<Rightarrow> Directory b)) fs"
    by (rule map_cong [OF refl]) (auto simp: rewrite_node_def rewrite_text_def linef split: node.splits)
  then have "rewrite_pass ids [] new_dir target_directory fs =
        (map (\<lambda>(n, x). (n, case x of
                  RegularFile t \<Rightarrow>
                    if ishidden n then RegularFile t
                    else RegularFile (concat (map (\<lambda>line. new_dir @ concat (map (\<lambda>c. c # new_dir) (replace_ids ids line)))
                                       (text_lines (universal_newlines t))))
                | Directory b \<Rightarrow> Directory b)) fs, None)"
    unfolding rewrite_pass_visible [OF assms(3,4,5)] by (simp only:)
  then show ?thesis
    by (simp add: empty line)
qed

theorem empty_old_source_directory_witness:
  "sep \<notin> set (drop (length (lit ''file:'')) (lit ''file:cat.jpg'')) \<and>
   \<not> has_magic (lit ''/t'') \<and>
   distinct [lit ''p.vott'', lit ''sub''] \<and> sep \<notin> set (lit ''p.vott'') \<and> sep \<notin> set (lit ''sub'') \<and>
   rewritten [(lit ''p.vott'', RegularFile [97, 10, 98]), (lit ''sub'', Directory False)] = [lit ''p.vott''] \<and>
   lit ''p.vott'' @ lit ''.bak'' \<notin> set [lit ''p.vott'', lit ''sub''] \<and>
   old_source_directory (lit ''file:cat.jpg'') = [] \<and>
   rewrite_line [] (old_source_directory (lit ''file:cat.jpg'')) (lit ''/n'') (lit ''ab'') = lit ''/na/nb/n'' \<and>
   rewrite_pass [] (old_source_directory (lit ''file:cat.jpg'')) (lit ''/n'') (lit ''/t'')
       [(lit ''p.vott'', RegularFile [97, 10, 98]), (lit ''sub'', Directory False)] =
     ([(lit ''p.vott'', RegularFile (lit ''/na/n'' @ [10] @ lit ''/n/nb/n'')), (lit ''sub'', Directory False)],
      None)"
proof -
  let ?fs = "[(lit ''p.vott'', RegularFile [97, 10, 98]), (lit ''sub'', Directory False)]"
  have h1: "sep \<notin> set (drop (length (lit ''file:'')) (lit ''file:cat.jpg''))"
    and h2: "\<not> has_magic (lit ''/t'')"
    and h3: "distinct (map fst ?fs)" and h4: "\<forall>n \<in> set (map fst ?fs). sep \<notin> set n"
    by (simp_all add: has_magic_def lit_def sep_def)
  have files: "rewritten ?fs = [lit ''p.vott'']"
    by (simp add: rewritten_def ishidden_def lit_def)
  have h5: "\<forall>n \<in> set (rewritten ?fs). n @ lit ''.bak'' \<notin> set (map fst ?fs)"
    unfolding files by (simp add: lit_def)
  show ?thesis
    using empty_old_source_directory [OF h1 h2 h3 h4 h5, of "[]" "lit ''/n''" "lit ''ab''"]
      h1 h2 h3 h4 h5 files
    by (auto simp: lit_def ishidden_def)
qed

text \<open>
  C9 fails as stated, in two ways. A file whose name starts with a dot is not listed by
  \<open>glob\<close> with the pattern \<open>*\<close>, and Pass 2 leaves its lines as they are: the line
  \<open>ab\<close> of \<open>p.vott\<close> becomes \<open>/na/nb/n\<close> and the same line of \<open>.keep\<close> stays. And a
  file named as another file with \<open>.bak\<close> is not rewritten but removed: with \<open>b.txt\<close>
  and \<open>b.txt.bak\<close>, rewriting \<open>b.txt\<close> removes \<open>b.txt.bak\<close> (its backup name), and
  Pass 2 ends with \<open>FileNotFoundError\<close> when it comes to \<open>b.txt.bak\<close>.
\<close>

theorem rewrite_pass_counterexample:
  "old_source_directory (lit ''file:cat.jpg'') = [] \<and>
   rewrite_pass [] (old_source_directory (lit ''file:cat.jpg'')) (lit ''/n'') (lit ''/t'')
       [(lit ''p.vott'', RegularFile (lit ''ab'')), (lit ''.keep'', RegularFile (lit ''ab''))] =
     ([(lit ''p.vott'', RegularFile (lit ''/na/nb/n'')), (lit ''.keep'', RegularFile (lit ''ab''))], None) \<and>
   rewrite_pass [] (old_source_directory (lit ''file:cat.jpg'')) (lit ''/n'') (lit ''/t'')
       [(lit ''b.txt'', RegularFile (lit ''ab'')), (lit ''b.txt.bak'', RegularFile (lit ''ab''))] =
     ([(lit ''b.txt'', RegularFile (lit ''/na/nb/n''))], Some FileNotFoundError)"
proof -
  let ?f = "rewrite_text [] [] (lit ''/n'')"
  let ?fs = "[(lit ''p.vott'', RegularFile (lit ''ab'')), (lit ''.keep'', RegularFile (lit ''ab''))]"
  let ?gs = "[(lit ''b.txt'', RegularFile (lit ''ab'')), (lit ''b.txt.bak'', RegularFile (lit ''ab''))]"
  have empty: "old_source_directory (lit ''file:cat.jpg'') = []"
    by (simp add: old_source_directory_def path_split_def basename_def sep_def lit_def)
  have content: "?f (lit ''ab'') = lit ''/na/nb/n''"
    by (simp add: rewrite_text_def rewrite_line_def str_replace_def lit_def)
  have files: "filter (isfile ?fs) (glob (map fst ?fs) (path_join (lit ''/t'') (lit ''*''))) =
      [lit ''/t/p.vott'']"
    by (simp add: glob_def path_join_def path_split_def basename_def ishidden_def isfile_def
        sep_def lit_def suffix_to_prefix)
  have unlink: "os_unlink_quiet ?fs (lit ''/t/p.vott'' @ lit ''.bak'') = ?fs"
    by (simp add: os_unlink_quiet_def basename_def sep_def lit_def)
  have rename: "os_rename ?fs (lit ''/t/p.vott'') (lit ''/t/p.vott'' @ lit ''.bak'') =
      Inr [(lit ''p.vott.bak'', RegularFile (lit ''ab'')), (lit ''.keep'', RegularFile (lit ''ab''))]"
    by (simp add: os_rename_def basename_def sep_def lit_def)
  have base: "basename (lit ''/t/p.vott'') = lit ''p.vott''"
      "basename (lit ''/t/p.vott'' @ lit ''.bak'') = lit ''p.vott.bak''"
    by (simp_all add: basename_def sep_def lit_def)
  have differ: "lit ''.keep'' \<noteq> lit ''p.vott.bak''"
    by (simp add: lit_def)
  have hidden: "rewrite_files ?f [lit ''/t/p.vott''] ?fs =
      ([(lit ''p.vott'', RegularFile (lit ''/na/nb/n'')), (lit ''.keep'', RegularFile (lit ''ab''))], None)"
    by (simp add: Let_def unlink rename base content differ)
  have files': "filter (isfile ?gs) (glob (map fst ?gs) (path_join (lit ''/t'') (lit ''*''))) =
      [lit ''/t/b.txt'', lit ''/t/b.txt.bak'']"
    by (simp add: glob_def path_join_def path_split_def basename_def ishidden_def isfile_def
        sep_def lit_def suffix_to_prefix)
  have unlink': "os_unlink_quiet ?gs (lit ''/t/b.txt'' @ lit ''.bak'') =
      [(lit ''b.txt'', RegularFile (lit ''ab''))]"
    by (simp add: os_unlink_quiet_def basename_def sep_def lit_def)
  have rename': "os_rename [(lit ''b.txt'', RegularFile (lit ''ab''))] (lit ''/t/b.txt'')
        (lit ''/t/b.txt'' @ lit ''.bak'') = Inr [(lit ''b.txt.bak'', RegularFile (lit ''ab''))]"
    by (simp add: os_rename_def basename_def sep_def lit_def)
  have base': "basename (lit ''/t/b.txt'') = lit ''b.txt''"
      "basename (lit ''/t/b.txt'' @ lit ''.bak'') = lit ''b.txt.bak''"
    by (simp_all add: basename_def sep_def lit_def)
  have unlink'': "os_unlink_quiet [(lit ''b.txt'', RegularFile (lit ''/na/nb/n''))]
        (lit ''/t/b.txt.bak'' @ lit ''.bak'') = [(lit ''b.txt'', RegularFile (lit ''/na/nb/n''))]"
    by (simp add: os_unlink_quiet_def basename_def sep_def lit_def)
  have rename'': "os_rename [(lit ''b.txt'', RegularFile (lit ''/na/nb/n''))] (lit ''/t/b.txt.bak'')
        (lit ''/t/b.txt.bak'' @ lit ''.bak'') = Inl FileNotFoundError"
    by (simp add: os_rename_def basename_def sep_def lit_def)
  have backup: "rewrite_files ?f [lit ''/t/b.txt'', lit ''/t/b.txt.bak''] ?gs =
      ([(lit ''b.txt'', RegularFile (lit ''/na/nb/n''))], Some FileNotFoundError)"
    by (simp add: Let_def unlink' rename' base' content unlink'' rename'')
  show ?thesis
    unfolding empty rewrite_pass_def files files' hidden backup by simp
qed


section \<open>main without assets\<close>

text \<open>
  C6. With a manifest without assets the run ends with an exception and changes nothing
  in the directory: when the manifest file is found, reading the first asset's path
  raises \<open>IndexError\<close> before the identifier mapper is called; otherwise the file
  matcher has raised already.
\<close>

theorem zero_assets_fails:
  assumes "assets vd = []"
  shows "fst (main new_source_directory target_directory fs vd) = fs \<and>
         snd (main new_source_directory target_directory fs vd) \<noteq> None \<and>
         (\<forall>vott_file. get_single_file_with_suffix (map fst fs) target_directory (SuffixStr (lit ''.vott'')) = Inr vott_file
              \<and> isfile fs vott_file \<longrightarrow>
            main new_source_directory target_directory fs vd = (fs, Some IndexError))"
  using assms by (auto simp: main_def Let_def split: sum.splits)

theorem zero_assets_fails_witness:
  "assets \<lparr>assets = []\<rparr> = [] \<and>
   main (lit ''/new dir'') (lit ''/t'') [(lit ''p.vott'', RegularFile [])] \<lparr>assets = []\<rparr> =
     ([(lit ''p.vott'', RegularFile [])], Some IndexError)"
proof -
  have "get_single_file_with_suffix (map fst [(lit ''p.vott'', RegularFile [])]) (lit ''/t'')
          (SuffixStr (lit ''.vott'')) = Inr (lit ''/t/p.vott'')"
    by (simp add: get_single_file_with_suffix_def candidate_files_def glob_def path_join_def
      path_split_def basename_def ishidden_def sep_def lit_def suffix_to_prefix)
  moreover have "isfile [(lit ''p.vott'', RegularFile [])] (lit ''/t/p.vott'')"
    by (simp add: isfile_def basename_def sep_def lit_def)
  ultimately show ?thesis
    using zero_assets_fails [of "\<lparr>assets = []\<rparr>" "lit ''/new dir''" "lit ''/t''" "[(lit ''p.vott'', RegularFile [])]"]
    by simp
qed


section \<open>The identifier mapper\<close>

lemma length_le_bytes: "length (le_bytes n v) = n"
  by (simp add: le_bytes_def)

lemma length_md5: "length (md5 m) = 16"
  unfolding md5_def
  by (cases "foldl md5_block (0x67452301, 0xefcdab89, 0x98badcfe, 0x10325476) (chunks 64 (md5_pad m))")
     (simp add: length_le_bytes)

lemma length_hexdigest: "length (hexdigest bs) = 2 * length bs"
  by (induction bs) (simp_all add: hexdigest_def)

lemma hex_digit_range:
  "n < 16 \<Longrightarrow> hex_digit n \<in> set (lit ''0123456789abcdef'')"
proof -
  assume "n < 16"
  then have "n \<in> {0, 1, 2, 3, 4, 5, 6, 7, 8, 9, 10, 11, 12, 13, 14, 15}" by simp arith
  then show ?thesis by (auto simp: hex_digit_def lit_def)
qed

lemma byte_nibbles: "unat (b :: byte) div 16 < 16" "unat b mod 16 < 16"
proof -
  have "unat b < 256" using unsigned_less [of b] by simp
  then show "unat b div 16 < 16" by simp
  show "unat b mod 16 < 16" by simp
qed

lemma set_hexdigest: "set (hexdigest bs) \<subseteq> set (lit ''0123456789abcdef'')"
  by (induction bs) (simp_all add: hexdigest_def hex_digit_range byte_nibbles)

lemma hex_digit_inj: "a < 16 \<Longrightarrow> b < 16 \<Longrightarrow> hex_digit a = hex_digit b \<Longrightarrow> a = b"
  by (auto simp: hex_digit_def split: if_splits)

lemma hexdigest_inj: "hexdigest xs = hexdigest ys \<Longrightarrow> xs = ys"
proof (induction xs arbitrary: ys)
  case Nil
  then show ?case by (cases ys) (simp_all add: hexdigest_def)
next
  case (Cons x xs)
  then obtain y ys' where ys: "ys = y # ys'" by (cases ys) (auto simp: hexdigest_def)
  have hd: "hex_digit (unat x div 16) = hex_digit (unat y div 16)"
      "hex_digit (unat x mod 16) = hex_digit (unat y mod 16)"
    and tl: "hexdigest xs = hexdigest ys'"
    using Cons.prems unfolding ys by (simp_all add: hexdigest_def)
  have "unat x div 16 = unat y div 16" "unat x mod 16 = unat y mod 16"
    using hd by (auto intro: hex_digit_inj simp: byte_nibbles)
  then have "unat x = unat y" by (metis div_mult_mod_eq)
  then have "x = y" by (simp add: word_unat_eq_iff)
  then show ?case using Cons.IH [OF tl] ys by simp
qed

lemma dict_set_fresh: "k \<notin> fst ` set d \<Longrightarrow> dict_set k v d = d @ [(k, v)]"
  by (induction d) auto

lemma map_assets_distinct:
  assumes "distinct (map asset_id as)" and "\<forall>a \<in> set as. asset_id a \<notin> fst ` set d"
    and "\<forall>a \<in> set as. list_all encodable (source_asset_path dir a)"
  shows "map_assets dir as d =
         Inr (d @ map (\<lambda>a. (asset_id a, hexdigest (md5 (utf8_bytes (source_asset_path dir a))))) as)"
  using assms
proof (induction as arbitrary: d)
  case Nil
  show ?case by simp
next
  case (Cons a as)
  let ?v = "hexdigest (md5 (utf8_bytes (source_asset_path dir a)))"
  have "asset_id a \<notin> asset_id ` set as"
    using Cons.prems(1) by simp
  then have "\<forall>b \<in> set as. asset_id b \<noteq> asset_id a"
    by (metis image_eqI)
  then have "\<forall>b \<in> set as. asset_id b \<notin> fst ` set (d @ [(asset_id a, ?v)])"
    using Cons.prems(2) by simp
  then have "map_assets dir as (d @ [(asset_id a, ?v)]) =
      Inr ((d @ [(asset_id a, ?v)]) @
        map (\<lambda>a. (asset_id a, hexdigest (md5 (utf8_bytes (source_asset_path dir a))))) as)"
    using Cons.prems by (intro Cons.IH) auto
  then show ?case
    using Cons.prems(2,3) by (simp add: encode_utf8_def dict_set_fresh)
qed

lemma map_of_ids:
  assumes "distinct (map asset_id as)" and "a \<in> set as"
  shows "map_of (map (\<lambda>a. (asset_id a, f a)) as) (asset_id a) = Some (f a)"
  using assms by (induction as) (auto simp: rev_image_eqI)

lemma path_join_relative:
  assumes "\<not> prefix [sep] n"
  shows "path_join d n = (if d = [] \<or> suffix [sep] d then d else d @ [sep]) @ n"
  using assms by (simp add: path_join_def)

lemma mapper_distinct:
  assumes "distinct (map asset_id (map snd (assets vd)))"
    and "\<forall>a \<in> set (map snd (assets vd)). list_all encodable (source_asset_path dir a)"
  shows "map_old_vott_path_and_id_to_new vd dir =
         Inr (map (\<lambda>a. (asset_id a, hexdigest (md5 (utf8_bytes (source_asset_path dir a)))))
                (map snd (assets vd)))"
  using map_assets_distinct [OF assms(1) _ assms(2), of "[]"]
  by (simp add: map_old_vott_path_and_id_to_new_def)

lemma digests_distinct:
  assumes "distinct (map asset_name as)"
    and "\<forall>a \<in> set as. \<not> prefix [sep] (asset_name a)"
    and "\<forall>a \<in> set as. \<forall>b \<in> set as.
           source_asset_path dir a \<noteq> source_asset_path dir b \<longrightarrow>
           md5 (utf8_bytes (source_asset_path dir a)) \<noteq> md5 (utf8_bytes (source_asset_path dir b))"
  shows "distinct (map (\<lambda>a. hexdigest (md5 (utf8_bytes (source_asset_path dir a)))) as)"
proof -
  let ?f = "\<lambda>a. hexdigest (md5 (utf8_bytes (source_asset_path dir a)))"
  have inj: "inj_on ?f (set as)"
  proof (rule inj_onI)
    fix a b assume a: "a \<in> set as" and b: "b \<in> set as" and eq: "?f a = ?f b"
    have "md5 (utf8_bytes (source_asset_path dir a)) = md5 (utf8_bytes (source_asset_path dir b))"
      using eq by (rule hexdigest_inj)
    then have "source_asset_path dir a = source_asset_path dir b"
      using assms(3) a b by blast
    moreover have "\<not> prefix [sep] (asset_name a)" "\<not> prefix [sep] (asset_name b)"
      using assms(2) a b by blast+
    ultimately have "asset_name a = asset_name b"
      by (simp add: source_asset_path_def path_join_relative)
    moreover have "inj_on asset_name (set as)"
      using assms(1) by (simp add: distinct_map)
    ultimately show "a = b" using a b by (simp add: inj_on_def)
  qed
  have "distinct as" using assms(1) by (simp add: distinct_map)
  then show ?thesis using inj by (simp add: distinct_map)
qed

text \<open>
  MD5 maps the byte strings, infinitely many, to digests of 16 bytes, so it is not
  injective; that two candidate paths of a manifest have different digests is a condition
  on the manifest.
\<close>

lemma md5_not_injective: "\<not> inj md5"
proof
  assume inj: "inj md5"
  have "finite {bs :: byte list. set bs \<subseteq> UNIV \<and> length bs = 16}"
    by (rule finite_lists_length_eq) simp
  moreover have "range md5 \<subseteq> {bs :: byte list. set bs \<subseteq> UNIV \<and> length bs = 16}"
    using length_md5 by auto
  ultimately have "finite (range md5)"
    by (rule rev_finite_subset)
  then have "finite (UNIV :: byte list set)"
    using inj by (rule finite_imageD)
  then show False
    by (simp add: infinite_UNIV_listI)
qed

text \<open>
  Evaluating MD5 on two candidate paths, \<open>file:/data/imgs/cat.jpg\<close> and
  \<open>file:/data/imgs/dog.jpg\<close>; the digests are those \<open>hashlib\<close> gives.
\<close>

lemma replicate_numeral: "replicate (numeral k) x = x # replicate (pred_numeral k) x"
  by (simp add: numeral_eq_Suc)

lemmas md5_eval = md5_def md5_block_def md5_pad_def le_bytes_def le32_def upt_conv_Cons
  md5_step_def md5_K_def md5_s_def rotl32_def replicate_numeral

lemma path_cat:
  assumes "asset_name a = lit ''cat.jpg''"
  shows "source_asset_path (lit ''/data/imgs'') a =
    [102, 105, 108, 101, 58, 47, 100, 97, 116, 97, 47, 105, 109, 103, 115, 47, 99, 97, 116, 46, 106, 112, 103]"
  by (simp add: source_asset_path_def assms path_join_def sep_def lit_def suffix_to_prefix)

lemma path_dog:
  assumes "asset_name a = lit ''dog.jpg''"
  shows "source_asset_path (lit ''/data/imgs'') a =
    [102, 105, 108, 101, 58, 47, 100, 97, 116, 97, 47, 105, 109, 103, 115, 47, 100, 111, 103, 46, 106, 112, 103]"
  by (simp add: source_asset_path_def assms path_join_def sep_def lit_def suffix_to_prefix)

lemma path_rooted:
  assumes "asset_name a = lit ''/data/imgs/cat.jpg''"
  shows "source_asset_path (lit ''/data/imgs'') a =
    [102, 105, 108, 101, 58, 47, 100, 97, 116, 97, 47, 105, 109, 103, 115, 47, 99, 97, 116, 46, 106, 112, 103]"
  by (simp add: source_asset_path_def assms path_join_def sep_def lit_def)

lemma encodable_ascii: "list_all (\<lambda>c. c < 128) s \<Longrightarrow> list_all encodable s"
  by (induction s) (simp_all add: encodable_def)

lemma md5_cat: "md5 (utf8_bytes [102, 105, 108, 101, 58, 47, 100, 97, 116, 97, 47, 105, 109, 103, 115, 47, 99, 97, 116, 46, 106, 112, 103]) =
    [0xe3, 0x8d, 0x7c, 0xbe, 0xa4, 0x7d, 0x2b, 0x33, 0x7b, 0x23, 0x11, 0x2e, 0x64, 0x48, 0xba, 0xe5]"
proof -
  have "utf8_bytes [102, 105, 108, 101, 58, 47, 100, 97, 116, 97, 47, 105, 109, 103, 115, 47, 99, 97, 116, 46, 106, 112, 103] =
      [102, 105, 108, 101, 58, 47, 100, 97, 116, 97, 47, 105, 109, 103, 115, 47, 99, 97, 116, 46, 106, 112, 103]"
    by (simp add: utf8_bytes_def utf8_char_def)
  then show ?thesis by (simp add: md5_eval)
qed

lemma md5_dog: "md5 (utf8_bytes [102, 105, 108, 101, 58, 47, 100, 97, 116, 97, 47, 105, 109, 103, 115, 47, 100, 111, 103, 46, 106, 112, 103]) =
    [0x1d, 0xb2, 0x5e, 0x69, 0x5f, 0xb1, 0x2c, 0x34, 0xa2, 0xea, 0xbc, 0xb4, 0x88, 0x90, 0xcd, 0x6e]"
proof -
  have "utf8_bytes [102, 105, 108, 101, 58, 47, 100, 97, 116, 97, 47, 105, 109, 103, 115, 47, 100, 111, 103, 46, 106, 112, 103] =
      [102, 105, 108, 101, 58, 47, 100, 97, 116, 97, 47, 105, 109, 103, 115, 47, 100, 111, 103, 46, 106, 112, 103]"
    by (simp add: utf8_bytes_def utf8_char_def)
  then show ?thesis by (simp add: md5_eval)
qed

lemma hexdigest_cat:
  "hexdigest [0xe3, 0x8d, 0x7c, 0xbe, 0xa4, 0x7d, 0x2b, 0x33, 0x7b, 0x23, 0x11, 0x2e, 0x64, 0x48, 0xba, 0xe5] =
   lit ''e38d7cbea47d2b337b23112e6448bae5''"
  by (simp add: hexdigest_def hex_digit_def lit_def)

lemma hexdigest_dog:
  "hexdigest [0x1d, 0xb2, 0x5e, 0x69, 0x5f, 0xb1, 0x2c, 0x34, 0xa2, 0xea, 0xbc, 0xb4, 0x88, 0x90, 0xcd, 0x6e] =
   lit ''1db25e695fb12c34a2eabcb48890cd6e''"
  by (simp add: hexdigest_def hex_digit_def lit_def)

text \<open>
  C3 (as amended). For a manifest whose asset records have distinct ids and candidate
  paths that have a UTF-8 encoding, the mapper returns one entry for every asset, in the
  order of the assets: the asset's id mapped to the hexadecimal form (32 characters out
  of \<open>0123456789abcdef\<close>) of the 16-byte MD5 digest of the UTF-8 encoding of \<open>file:\<close>
  followed by the join of the directory and the asset's name; for a directory path that
  is not empty and a name that does not start with a separator the join is the
  directory, a separator unless the directory ends with one, and the name.
\<close>

theorem mapper_entries:
  assumes "distinct (map asset_id (map snd (assets vd)))"
    and "\<forall>a \<in> set (map snd (assets vd)). list_all encodable (source_asset_path directory_name a)"
  shows "\<exists>d. map_old_vott_path_and_id_to_new vd directory_name = Inr d \<and>
           length d = length (assets vd) \<and>
           map fst d = map asset_id (map snd (assets vd)) \<and>
           (\<forall>a \<in> set (map snd (assets vd)).
              let digest = md5 (utf8_bytes (lit ''file:'' @ path_join directory_name (asset_name a)))
              in map_of d (asset_id a) = Some (hexdigest digest) \<and>
                 length digest = 16 \<and> length (hexdigest digest) = 32 \<and>
                 set (hexdigest digest) \<subseteq> set (lit ''0123456789abcdef'') \<and>
                 (directory_name \<noteq> [] \<and> \<not> prefix [sep] (asset_name a) \<longrightarrow>
                    path_join directory_name (asset_name a) =
                      (if suffix [sep] directory_name then directory_name else directory_name @ [sep])
                        @ asset_name a))"
proof -
  let ?as = "map snd (assets vd)"
  let ?d = "map (\<lambda>a. (asset_id a, hexdigest (md5 (utf8_bytes (source_asset_path directory_name a))))) ?as"
  have res: "map_old_vott_path_and_id_to_new vd directory_name = Inr ?d"
    using assms by (rule mapper_distinct)
  have look: "map_of ?d (asset_id a) =
      Some (hexdigest (md5 (utf8_bytes (lit ''file:'' @ path_join directory_name (asset_name a)))))"
    if "a \<in> set ?as" for a
    using map_of_ids [OF assms(1) that] by (simp add: source_asset_path_def)
  have "length ?d = length (assets vd)" "map fst ?d = map asset_id ?as"
    by (simp_all add: comp_def)
  then show ?thesis
    using res look
    by (intro exI [of _ ?d]) (simp add: Let_def length_md5 length_hexdigest set_hexdigest path_join_def)
qed

theorem mapper_entries_witness:
  "(let vd = \<lparr>assets = [(lit ''aaaaaaaaaaaaaaaaaaaaaaaaaaaaaaaa'', \<lparr>asset_name = lit ''cat.jpg'', asset_id = lit ''aaaaaaaaaaaaaaaaaaaaaaaaaaaaaaaa'', asset_path = lit ''file:/home/alice/imgs/cat.jpg''\<rparr>)]\<rparr>
    in distinct (map asset_id (map snd (assets vd))) \<and>
       list_all (\<lambda>a. list_all encodable (source_asset_path (lit ''/data/imgs'') a)) (map snd (assets vd)) \<and>
       lit ''/data/imgs'' \<noteq> [] \<and> \<not> prefix [sep] (lit ''cat.jpg'') \<and>
       source_asset_path (lit ''/data/imgs'') \<lparr>asset_name = lit ''cat.jpg'', asset_id = lit ''aaaaaaaaaaaaaaaaaaaaaaaaaaaaaaaa'', asset_path = lit ''file:/home/alice/imgs/cat.jpg''\<rparr> = lit ''file:/data/imgs/cat.jpg'' \<and>
       map_old_vott_path_and_id_to_new vd (lit ''/data/imgs'') =
         Inr [(lit ''aaaaaaaaaaaaaaaaaaaaaaaaaaaaaaaa'', lit ''e38d7cbea47d2b337b23112e6448bae5'')])"
proof -
  let ?a = "\<lparr>asset_name = lit ''cat.jpg'', asset_id = lit ''aaaaaaaaaaaaaaaaaaaaaaaaaaaaaaaa'', asset_path = lit ''file:/home/alice/imgs/cat.jpg''\<rparr>"
  let ?vd = "\<lparr>assets = [(lit ''aaaaaaaaaaaaaaaaaaaaaaaaaaaaaaaa'', ?a)]\<rparr>"
  have path: "source_asset_path (lit ''/data/imgs'') ?a =
      [102, 105, 108, 101, 58, 47, 100, 97, 116, 97, 47, 105, 109, 103, 115, 47, 99, 97, 116, 46, 106, 112, 103]"
    by (rule path_cat) simp
  have h1: "distinct (map asset_id (map snd (assets ?vd)))"
    by simp
  have enc: "list_all encodable (source_asset_path (lit ''/data/imgs'') ?a)"
    unfolding path by (simp add: encodable_def)
  then have h2: "\<forall>a \<in> set (map snd (assets ?vd)). list_all encodable (source_asset_path (lit ''/data/imgs'') a)"
    by simp
  have rel: "lit ''/data/imgs'' \<noteq> []" "\<not> prefix [sep] (lit ''cat.jpg'')"
    by (simp_all add: lit_def sep_def)
  have digest: "hexdigest (md5 (utf8_bytes (lit ''file:'' @ path_join (lit ''/data/imgs'') (asset_name ?a)))) =
      lit ''e38d7cbea47d2b337b23112e6448bae5''"
    using path unfolding source_asset_path_def
    by (simp add: md5_cat hexdigest_cat)
  obtain d where d: "map_old_vott_path_and_id_to_new ?vd (lit ''/data/imgs'') = Inr d"
      "length d = length (assets ?vd)" "map fst d = map asset_id (map snd (assets ?vd))"
      "map_of d (asset_id ?a) =
         Some (hexdigest (md5 (utf8_bytes (lit ''file:'' @ path_join (lit ''/data/imgs'') (asset_name ?a)))))"
    using mapper_entries [OF h1 h2] unfolding Let_def by auto
  obtain k v where kv: "d = [(k, v)]"
    using d(2) by (cases d) auto
  have "d = [(lit ''aaaaaaaaaaaaaaaaaaaaaaaaaaaaaaaa'', lit ''e38d7cbea47d2b337b23112e6448bae5'')]"
    using d(3,4) unfolding kv digest by (simp split: if_splits)
  then show ?thesis
    unfolding Let_def using d(1) h1 enc path rel by (simp add: lit_def)
qed

text \<open>
  C3 fails as stated, in three ways. Two asset records with the same id share one entry,
  which holds the digest for the later record: three assets with the ids \<open>x\<close>, \<open>y\<close>,
  \<open>x\<close> give two entries. A name with a lone surrogate (the JSON text \<open>"\ud800"\<close>) has no
  UTF-8 encoding, and the mapper raises \<open>UnicodeEncodeError\<close>. And the join is not
  always the directory, one separator and the name: for a name that starts with a
  separator it is the name alone, and for the empty directory path the name without a
  separator.
\<close>

theorem mapper_entries_counterexample:
  "map_old_vott_path_and_id_to_new
       \<lparr>assets = [(lit ''k1'', \<lparr>asset_name = lit ''cat.jpg'', asset_id = lit ''x'', asset_path = lit ''file:/old/cat.jpg''\<rparr>),
                  (lit ''k2'', \<lparr>asset_name = lit ''dog.jpg'', asset_id = lit ''y'', asset_path = lit ''file:/old/dog.jpg''\<rparr>),
                  (lit ''k3'', \<lparr>asset_name = lit ''dog.jpg'', asset_id = lit ''x'', asset_path = lit ''file:/old/dog.jpg''\<rparr>)]\<rparr>
       (lit ''/data/imgs'') =
     Inr [(lit ''x'', lit ''1db25e695fb12c34a2eabcb48890cd6e''),
          (lit ''y'', lit ''1db25e695fb12c34a2eabcb48890cd6e'')] \<and>
   map_old_vott_path_and_id_to_new
       \<lparr>assets = [(lit ''k1'', \<lparr>asset_name = [0xD800], asset_id = lit ''x'', asset_path = lit ''file:/old/cat.jpg''\<rparr>)]\<rparr>
       (lit ''/data/imgs'') =
     Inl UnicodeEncodeError \<and>
   source_asset_path (lit ''/data/imgs'')
       \<lparr>asset_name = lit ''/cat.jpg'', asset_id = lit ''x'', asset_path = lit ''file:/old/cat.jpg''\<rparr> =
     lit ''file:/cat.jpg'' \<and>
   source_asset_path []
       \<lparr>asset_name = lit ''cat.jpg'', asset_id = lit ''x'', asset_path = lit ''file:/old/cat.jpg''\<rparr> =
     lit ''file:cat.jpg''"
proof -
  let ?cat = "\<lparr>asset_name = lit ''cat.jpg'', asset_id = lit ''x'', asset_path = lit ''file:/old/cat.jpg''\<rparr>"
  let ?dog = "\<lparr>asset_name = lit ''dog.jpg'', asset_id = lit ''y'', asset_path = lit ''file:/old/dog.jpg''\<rparr>"
  let ?dog' = "\<lparr>asset_name = lit ''dog.jpg'', asset_id = lit ''x'', asset_path = lit ''file:/old/dog.jpg''\<rparr>"
  note paths = path_cat [of ?cat] path_dog [of ?dog] path_dog [of ?dog']
  have differ: "lit ''x'' \<noteq> lit ''y''"
    by (simp add: lit_def)
  have shared: "map_old_vott_path_and_id_to_new
       \<lparr>assets = [(lit ''k1'', ?cat), (lit ''k2'', ?dog), (lit ''k3'', ?dog')]\<rparr> (lit ''/data/imgs'') =
     Inr [(lit ''x'', lit ''1db25e695fb12c34a2eabcb48890cd6e''),
          (lit ''y'', lit ''1db25e695fb12c34a2eabcb48890cd6e'')]"
    by (simp add: map_old_vott_path_and_id_to_new_def encode_utf8_def paths encodable_def
        md5_cat md5_dog hexdigest_cat hexdigest_dog differ)
  have surrogate: "map_old_vott_path_and_id_to_new
       \<lparr>assets = [(lit ''k1'', \<lparr>asset_name = [0xD800], asset_id = lit ''x'', asset_path = lit ''file:/old/cat.jpg''\<rparr>)]\<rparr>
       (lit ''/data/imgs'') = Inl UnicodeEncodeError"
    by (simp add: map_old_vott_path_and_id_to_new_def encode_utf8_def source_asset_path_def
        path_join_def encodable_def sep_def lit_def suffix_to_prefix)
  have joins: "source_asset_path (lit ''/data/imgs'')
       \<lparr>asset_name = lit ''/cat.jpg'', asset_id = lit ''x'', asset_path = lit ''file:/old/cat.jpg''\<rparr> =
     lit ''file:/cat.jpg''"
    "source_asset_path []
       \<lparr>asset_name = lit ''cat.jpg'', asset_id = lit ''x'', asset_path = lit ''file:/old/cat.jpg''\<rparr> =
     lit ''file:cat.jpg''"
    by (simp_all add: source_asset_path_def path_join_def sep_def lit_def)
  show ?thesis
    using shared surrogate joins by (simp only: simp_thms)
qed


text \<open>
  C5 (as amended). For a manifest with N assets that have distinct ids and distinct
  names, none starting with a separator, and candidate paths that have a UTF-8 encoding:
  if no two different candidate paths have the same MD5 digest, the mapper returns
  exactly N entries with N distinct values.
\<close>

theorem new_ids_distinct:
  assumes "distinct (map asset_id (map snd (assets vd)))"
    and "distinct (map asset_name (map snd (assets vd)))"
    and "\<forall>a \<in> set (map snd (assets vd)). \<not> prefix [sep] (asset_name a)"
    and "\<forall>a \<in> set (map snd (assets vd)). list_all encodable (source_asset_path directory_name a)"
    and "\<forall>a \<in> set (map snd (assets vd)). \<forall>b \<in> set (map snd (assets vd)).
           source_asset_path directory_name a \<noteq> source_asset_path directory_name b \<longrightarrow>
           md5 (utf8_bytes (source_asset_path directory_name a)) \<noteq>
           md5 (utf8_bytes (source_asset_path directory_name b))"
  shows "\<exists>d. map_old_vott_path_and_id_to_new vd directory_name = Inr d \<and>
           length d = length (assets vd) \<and> distinct (map snd d)"
proof -
  let ?f = "\<lambda>a. hexdigest (md5 (utf8_bytes (source_asset_path directory_name a)))"
  let ?d = "map (\<lambda>a. (asset_id a, ?f a)) (map snd (assets vd))"
  have res: "map_old_vott_path_and_id_to_new vd directory_name = Inr ?d"
    using assms(1,4) by (rule mapper_distinct)
  have "distinct (map ?f (map snd (assets vd)))"
    using assms(2,3,5) by (rule digests_distinct)
  moreover have "map snd ?d = map ?f (map snd (assets vd))"
    by (simp add: comp_def)
  ultimately have "distinct (map snd ?d)" by (simp only:)
  then show ?thesis using res by (intro exI [of _ ?d]) simp
qed

theorem new_ids_distinct_witness:
  "(let vd = \<lparr>assets = [(lit ''aaaaaaaaaaaaaaaaaaaaaaaaaaaaaaaa'', \<lparr>asset_name = lit ''cat.jpg'', asset_id = lit ''aaaaaaaaaaaaaaaaaaaaaaaaaaaaaaaa'', asset_path = lit ''file:/home/alice/imgs/cat.jpg''\<rparr>),
                          (lit ''bbbbbbbbbbbbbbbbbbbbbbbbbbbbbbbb'', \<lparr>asset_name = lit ''dog.jpg'', asset_id = lit ''bbbbbbbbbbbbbbbbbbbbbbbbbbbbbbbb'', asset_path = lit ''file:/home/alice/imgs/dog.jpg''\<rparr>)]\<rparr>;
        dir = lit ''/data/imgs''
    in distinct (map asset_id (map snd (assets vd))) \<and>
       distinct (map asset_name (map snd (assets vd))) \<and>
       list_all (\<lambda>a. \<not> prefix [sep] (asset_name a)) (map snd (assets vd)) \<and>
       list_all (\<lambda>a. list_all encodable (source_asset_path dir a)) (map snd (assets vd)) \<and>
       md5 (utf8_bytes (source_asset_path dir \<lparr>asset_name = lit ''cat.jpg'', asset_id = lit ''aaaaaaaaaaaaaaaaaaaaaaaaaaaaaaaa'', asset_path = lit ''file:/home/alice/imgs/cat.jpg''\<rparr>)) \<noteq>
       md5 (utf8_bytes (source_asset_path dir \<lparr>asset_name = lit ''dog.jpg'', asset_id = lit ''bbbbbbbbbbbbbbbbbbbbbbbbbbbbbbbb'', asset_path = lit ''file:/home/alice/imgs/dog.jpg''\<rparr>)) \<and>
       (\<exists>d. map_old_vott_path_and_id_to_new vd dir = Inr d \<and> length d = 2 \<and> distinct (map snd d)))"
proof -
  let ?cat = "\<lparr>asset_name = lit ''cat.jpg'', asset_id = lit ''aaaaaaaaaaaaaaaaaaaaaaaaaaaaaaaa'', asset_path = lit ''file:/home/alice/imgs/cat.jpg''\<rparr>"
  let ?dog = "\<lparr>asset_name = lit ''dog.jpg'', asset_id = lit ''bbbbbbbbbbbbbbbbbbbbbbbbbbbbbbbb'', asset_path = lit ''file:/home/alice/imgs/dog.jpg''\<rparr>"
  let ?vd = "\<lparr>assets = [(lit ''aaaaaaaaaaaaaaaaaaaaaaaaaaaaaaaa'', ?cat), (lit ''bbbbbbbbbbbbbbbbbbbbbbbbbbbbbbbb'', ?dog)]\<rparr>"
  let ?dir = "lit ''/data/imgs''"
  have h1: "distinct (map asset_id (map snd (assets ?vd)))"
    and h2: "distinct (map asset_name (map snd (assets ?vd)))"
    and h3: "\<forall>a \<in> set (map snd (assets ?vd)). \<not> prefix [sep] (asset_name a)"
    by (simp_all add: lit_def sep_def)
  have paths: "source_asset_path ?dir ?cat =
      [102, 105, 108, 101, 58, 47, 100, 97, 116, 97, 47, 105, 109, 103, 115, 47, 99, 97, 116, 46, 106, 112, 103]"
    "source_asset_path ?dir ?dog =
      [102, 105, 108, 101, 58, 47, 100, 97, 116, 97, 47, 105, 109, 103, 115, 47, 100, 111, 103, 46, 106, 112, 103]"
    by (simp_all add: path_cat path_dog)
  have h4: "\<forall>a \<in> set (map snd (assets ?vd)). list_all encodable (source_asset_path ?dir a)"
    by (simp add: paths encodable_def)
  have differ: "md5 (utf8_bytes (source_asset_path ?dir ?cat)) \<noteq>
                md5 (utf8_bytes (source_asset_path ?dir ?dog))"
    unfolding paths md5_cat md5_dog by simp
  then have h5: "\<forall>a \<in> set (map snd (assets ?vd)). \<forall>b \<in> set (map snd (assets ?vd)).
           source_asset_path ?dir a \<noteq> source_asset_path ?dir b \<longrightarrow>
           md5 (utf8_bytes (source_asset_path ?dir a)) \<noteq> md5 (utf8_bytes (source_asset_path ?dir b))"
    using not_sym [OF differ] by auto
  have "\<exists>d. map_old_vott_path_and_id_to_new ?vd ?dir = Inr d \<and>
           length d = length (assets ?vd) \<and> distinct (map snd d)"
    using h1 h2 h3 h4 h5 by (rule new_ids_distinct)
  then show ?thesis
    unfolding Let_def using h1 h2 h3 h4 differ by (auto simp: list_all_iff numeral_2_eq_2)
qed

text \<open>
  C5 fails as stated, in three ways, each with assets of distinct names. Two assets with
  the same id share one entry: there are fewer entries than assets. The names \<open>cat.jpg\<close>
  and \<open>/data/imgs/cat.jpg\<close> give, in the directory \<open>/data/imgs\<close>, the same candidate
  path (the join drops the directory in front of a name that starts with a separator) and
  so the same new identifier. And a name with a lone surrogate has no UTF-8 encoding:
  the mapper raises \<open>UnicodeEncodeError\<close> and returns no entries.
\<close>

theorem new_ids_not_distinct_counterexample:
  "distinct [lit ''cat.jpg'', lit ''dog.jpg''] \<and>
   map_old_vott_path_and_id_to_new
       \<lparr>assets = [(lit ''k1'', \<lparr>asset_name = lit ''cat.jpg'', asset_id = lit ''x'', asset_path = lit ''file:/old/cat.jpg''\<rparr>),
                  (lit ''k2'', \<lparr>asset_name = lit ''dog.jpg'', asset_id = lit ''x'', asset_path = lit ''file:/old/dog.jpg''\<rparr>)]\<rparr>
       (lit ''/data/imgs'') =
     Inr [(lit ''x'', lit ''1db25e695fb12c34a2eabcb48890cd6e'')] \<and>
   distinct [lit ''cat.jpg'', lit ''/data/imgs/cat.jpg''] \<and>
   map_old_vott_path_and_id_to_new
       \<lparr>assets = [(lit ''k1'', \<lparr>asset_name = lit ''cat.jpg'', asset_id = lit ''x'', asset_path = lit ''file:/old/cat.jpg''\<rparr>),
                  (lit ''k2'', \<lparr>asset_name = lit ''/data/imgs/cat.jpg'', asset_id = lit ''y'', asset_path = lit ''file:/old/dog.jpg''\<rparr>)]\<rparr>
       (lit ''/data/imgs'') =
     Inr [(lit ''x'', lit ''e38d7cbea47d2b337b23112e6448bae5''),
          (lit ''y'', lit ''e38d7cbea47d2b337b23112e6448bae5'')] \<and>
   distinct [lit ''cat.jpg'', [0xDC00]] \<and>
   map_old_vott_path_and_id_to_new
       \<lparr>assets = [(lit ''k1'', \<lparr>asset_name = lit ''cat.jpg'', asset_id = lit ''x'', asset_path = lit ''file:/old/cat.jpg''\<rparr>),
                  (lit ''k2'', \<lparr>asset_name = [0xDC00], asset_id = lit ''y'', asset_path = lit ''file:/old/dog.jpg''\<rparr>)]\<rparr>
       (lit ''/data/imgs'') =
     Inl UnicodeEncodeError"
proof -
  let ?cat = "\<lparr>asset_name = lit ''cat.jpg'', asset_id = lit ''x'', asset_path = lit ''file:/old/cat.jpg''\<rparr>"
  let ?dog = "\<lparr>asset_name = lit ''dog.jpg'', asset_id = lit ''x'', asset_path = lit ''file:/old/dog.jpg''\<rparr>"
  let ?rooted = "\<lparr>asset_name = lit ''/data/imgs/cat.jpg'', asset_id = lit ''y'', asset_path = lit ''file:/old/dog.jpg''\<rparr>"
  let ?surrogate = "\<lparr>asset_name = [0xDC00], asset_id = lit ''y'', asset_path = lit ''file:/old/dog.jpg''\<rparr>"
  note paths = path_cat [of ?cat] path_dog [of ?dog] path_rooted [of ?rooted]
  have differ: "lit ''x'' \<noteq> lit ''y''"
    by (simp add: lit_def)
  have names: "distinct [lit ''cat.jpg'', lit ''dog.jpg'']"
      "distinct [lit ''cat.jpg'', lit ''/data/imgs/cat.jpg'']" "distinct [lit ''cat.jpg'', [0xDC00]]"
    by (simp_all add: lit_def)
  have shared: "map_old_vott_path_and_id_to_new
       \<lparr>assets = [(lit ''k1'', ?cat), (lit ''k2'', ?dog)]\<rparr> (lit ''/data/imgs'') =
     Inr [(lit ''x'', lit ''1db25e695fb12c34a2eabcb48890cd6e'')]"
    by (simp add: map_old_vott_path_and_id_to_new_def encode_utf8_def paths encodable_def
        md5_cat md5_dog hexdigest_cat hexdigest_dog)
  have same: "map_old_vott_path_and_id_to_new
       \<lparr>assets = [(lit ''k1'', ?cat), (lit ''k2'', ?rooted)]\<rparr> (lit ''/data/imgs'') =
     Inr [(lit ''x'', lit ''e38d7cbea47d2b337b23112e6448bae5''),
          (lit ''y'', lit ''e38d7cbea47d2b337b23112e6448bae5'')]"
    by (simp add: map_old_vott_path_and_id_to_new_def encode_utf8_def paths encodable_def
        md5_cat hexdigest_cat differ)
  have "\<not> list_all encodable (source_asset_path (lit ''/data/imgs'') ?surrogate)"
    by (simp add: source_asset_path_def path_join_def encodable_def sep_def lit_def suffix_to_prefix)
  then have surrogate: "map_old_vott_path_and_id_to_new
       \<lparr>assets = [(lit ''k1'', ?cat), (lit ''k2'', ?surrogate)]\<rparr> (lit ''/data/imgs'') =
     Inl UnicodeEncodeError"
    by (simp add: map_old_vott_path_and_id_to_new_def encode_utf8_def paths encodable_def)
  show ?thesis
    using names shared same surrogate by (simp only: simp_thms)
qed

end
